theory Spec2Isabelle
  imports Main "HOL-Library.Sublist" "HOL-Library.Multiset"
begin

section \<open>antichonk: the interactive review of a file catalog\<close>

text \<open>
  A shallow embedding of \<^verbatim>\<open>antichonk.py\<close>. The program scans a directory with
  \<^verbatim>\<open>glob\<close>, builds one \<^verbatim>\<open>File\<close> object per path that is not a directory, sorts
  the objects by size or by age, and walks the sorted list with the methods of
  \<^verbatim>\<open>StateMachine\<close>, which call each other recursively.

  Everything the Python does beyond returning a value is explicit here: the file system,
  the two class-level lists, standard input and standard output are fields of a
  \<open>world\<close> record that every operation takes and returns; an exception is the \<open>Inl\<close>
  branch of a sum; the nesting of Python calls is a counter that runs out as the
  interpreter's recursion limit does.
\<close>

subsection \<open>Exceptions\<close>

text \<open>
  The exception classes. The first eleven are the built-in Python exceptions that the
  statements of the program can raise (\<open>OSError\<close> stands for an \<^verbatim>\<open>OSError\<close> of no listed
  subclass). The last three are the names used by the specification; no statement of
  \<^verbatim>\<open>antichonk.py\<close> defines or raises them, they are here so that a statement about them
  can be written down.
\<close>

datatype error =
    IndexError | ValueError | FileNotFoundError | NotADirectoryError
  | IsADirectoryError | PermissionError | OSError | OverflowError
  | EOFError | RecursionError | UnboundLocalError
  | ScanError | EmptyCatalogError | DeletionError

subsection \<open>The file system\<close>

text \<open>
  A file system is a list of absolute, normalised paths, each with what is stored there:
  a regular file with its size in bytes and its change time (microseconds since the
  epoch), or a directory. The order of the list is the order in which the operating
  system lists entries. Symbolic links and special files (FIFOs, sockets, devices) are
  outside the model: every statement below is about trees of directories and regular
  files.

  Two lists say what the operating system refuses: the paths in \<open>und\<close> cannot be
  unlinked or removed (an immutable file, a busy mount point), the directories in
  \<open>unr\<close> cannot be listed. Both refusals are \<^verbatim>\<open>PermissionError\<close>s.
\<close>

datatype entry = RegularFile nat int | Directory

type_synonym filesystem = "(string \<times> entry) list"

definition os_path_exists :: "filesystem \<Rightarrow> string \<Rightarrow> bool" where
  "os_path_exists fsys p = (map_of fsys p \<noteq> None)"

definition os_path_isdir :: "filesystem \<Rightarrow> string \<Rightarrow> bool" where
  "os_path_isdir fsys p = (map_of fsys p = Some Directory)"

text \<open>\<^verbatim>\<open>os.path.dirname\<close> of \<^verbatim>\<open>posixpath\<close>: everything up to and including the last
  slash, with trailing slashes stripped unless the head consists of slashes only.\<close>

definition os_path_dirname :: "string \<Rightarrow> string" where
  "os_path_dirname p =
     (let head = rev (dropWhile (\<lambda>c. c \<noteq> CHR ''/'') (rev p))
      in if head \<noteq> [] \<and> head \<noteq> replicate (length head) (CHR ''/'')
         then rev (dropWhile (\<lambda>c. c = CHR ''/'') (rev head))
         else head)"

text \<open>\<open>below d q\<close>: the path \<open>q\<close> lies strictly inside the directory \<open>d\<close>.\<close>

definition below :: "string \<Rightarrow> string \<Rightarrow> bool" where
  "below d q = (strict_prefix (if d \<noteq> [] \<and> last d = CHR ''/'' then d else d @ ''/'') q)"

text \<open>The entries of the directory \<open>d\<close>, in listing order.\<close>

definition listdir :: "filesystem \<Rightarrow> string \<Rightarrow> string list" where
  "listdir fsys d = map fst (filter (\<lambda>(q, _). q \<noteq> d \<and> os_path_dirname q = d) fsys)"

text \<open>\<open>blocked fsys unr d\<close>: the directory \<open>d\<close>, or a directory below it, cannot be
  listed.\<close>

definition blocked :: "filesystem \<Rightarrow> string list \<Rightarrow> string \<Rightarrow> bool" where
  "blocked fsys unr d = list_ex (\<lambda>u. (u = d \<or> below d u) \<and> os_path_isdir fsys u) unr"

text \<open>\<^verbatim>\<open>os.remove\<close> (\<^verbatim>\<open>unlink\<close>): removes a file; raises when the path is missing, when
  the operating system refuses, or when the path is a directory.\<close>

definition os_remove :: "filesystem \<Rightarrow> string list \<Rightarrow> string \<Rightarrow> error + filesystem" where
  "os_remove fsys und p =
     (case map_of fsys p of
        None \<Rightarrow> Inl FileNotFoundError
      | Some e \<Rightarrow>
          if p \<in> set und then Inl PermissionError
          else if e = Directory then Inl IsADirectoryError
          else Inr (filter (\<lambda>(q, _). q \<noteq> p) fsys))"

text \<open>\<^verbatim>\<open>os.rmdir\<close>: removes an empty directory.\<close>

definition os_rmdir :: "filesystem \<Rightarrow> string list \<Rightarrow> string \<Rightarrow> error + filesystem" where
  "os_rmdir fsys und p =
     (case map_of fsys p of
        None \<Rightarrow> Inl FileNotFoundError
      | Some e \<Rightarrow>
          if p \<in> set und then Inl PermissionError
          else if e \<noteq> Directory then Inl NotADirectoryError
          else if listdir fsys p \<noteq> [] then Inl OSError
          else Inr (filter (\<lambda>(q, _). q \<noteq> p) fsys))"

text \<open>
  \<^verbatim>\<open>shutil.rmtree\<close> with its default error handling: the entries of a directory are
  removed in listing order, a subdirectory by emptying it first and removing it then, and
  the first failure is raised. What had been removed by then stays removed, so a failure
  comes with the file system it leaves behind.

  \<open>rm_entries\<close> is the loop over the entries of one directory; its first argument
  empties a subdirectory. \<open>rmtree_in\<close> empties a directory; its first argument bounds the
  nesting of directories, and \<open>shutil_rmtree\<close> passes the number of entries of the file
  system, which no nesting exceeds.
\<close>

fun rm_entries ::
  "(string \<Rightarrow> filesystem \<Rightarrow> (error + unit) \<times> filesystem) \<Rightarrow> string list \<Rightarrow> string list \<Rightarrow>
     filesystem \<Rightarrow> (error + unit) \<times> filesystem" where
  "rm_entries sub und [] fsys = (Inr (), fsys)"
| "rm_entries sub und (c # cs) fsys =
     (if os_path_isdir fsys c
      then (case sub c fsys of
              (Inl e, fsys1) \<Rightarrow> (Inl e, fsys1)
            | (Inr _, fsys1) \<Rightarrow>
                (case os_rmdir fsys1 und c of
                   Inl e \<Rightarrow> (Inl e, fsys1)
                 | Inr fsys2 \<Rightarrow> rm_entries sub und cs fsys2))
      else (case os_remove fsys und c of
              Inl e \<Rightarrow> (Inl e, fsys)
            | Inr fsys1 \<Rightarrow> rm_entries sub und cs fsys1))"

primrec rmtree_in ::
  "nat \<Rightarrow> string list \<Rightarrow> string list \<Rightarrow> string \<Rightarrow> filesystem \<Rightarrow> (error + unit) \<times> filesystem" where
  "rmtree_in 0 und unr d fsys = (Inl RecursionError, fsys)"
| "rmtree_in (Suc k) und unr d fsys =
     (if d \<in> set unr then (Inl PermissionError, fsys)
      else rm_entries (rmtree_in k und unr) und (listdir fsys d) fsys)"

definition shutil_rmtree ::
  "filesystem \<Rightarrow> string list \<Rightarrow> string list \<Rightarrow> string \<Rightarrow> (error + unit) \<times> filesystem" where
  "shutil_rmtree fsys und unr d =
     (case map_of fsys d of
        None \<Rightarrow> (Inl FileNotFoundError, fsys)
      | Some (RegularFile _ _) \<Rightarrow> (Inl NotADirectoryError, fsys)
      | Some Directory \<Rightarrow>
          (case rmtree_in (length fsys) und unr d fsys of
             (Inl e, fsys1) \<Rightarrow> (Inl e, fsys1)
           | (Inr _, fsys1) \<Rightarrow>
               (case os_rmdir fsys1 und d of
                  Inl e \<Rightarrow> (Inl e, fsys1)
                | Inr fsys2 \<Rightarrow> (Inr (), fsys2))))"

subsection \<open>File objects and the process state\<close>

text \<open>
  A \<^verbatim>\<open>File\<close> object. The class defines no \<^verbatim>\<open>__eq__\<close>, so Python compares two
  objects by identity; \<open>oid\<close> is that identity, and equality of records is equality of
  objects. The two display strings \<^verbatim>\<open>size_human_readable\<close> and
  \<^verbatim>\<open>age_human_readable\<close> are only ever printed and are left out.
\<close>

record File =
  path :: string
  directory :: string
  size_in_bytes :: int
  age_in_days :: int
  oid :: nat

text \<open>What the program writes to standard output and reads from standard input, in
  order. A tree is recorded by the directory drawn and the path highlighted in it;
  \<open>TreeChildLines\<close> stands for a drawing that was completed.\<close>

datatype event =
    AbsolutePathLine string
  | TreeRootLine string
  | TreeChildLines string string
  | PromptLine
  | InputRead string
  | HelpLegend

text \<open>
  The state of the process: the file system with the two lists of refusals, the class
  attribute \<^verbatim>\<open>StateMachine.directories_to_ignore\<close>, the class attribute \<^verbatim>\<open>File.files\<close>,
  the lines still to be read from standard input, the output so far and the clock.
\<close>

record world =
  fs :: filesystem
  undeletable :: "string list"
  unreadable :: "string list"
  directories_to_ignore :: "string list"
  File_files :: "File list"
  stdin :: "string list"
  stdout :: "event list"
  now :: int

text \<open>The instance attributes of a \<^verbatim>\<open>StateMachine\<close>; \<^verbatim>\<open>self.actions\<close> is the constant
  table \<open>actions\<close> below.\<close>

record StateMachine =
  files :: "File list"
  current_file :: File

subsection \<open>Methods of File used by the session\<close>

text \<open>
  \<^verbatim>\<open>File.print_as_tree\<close>. The generator \<^verbatim>\<open>make_tree\<close> yields the root before it
  lists it, so the first two lines are printed even when \<^verbatim>\<open>iterdir\<close> then raises
  because the directory is gone or is not a directory. The generator goes into every
  subdirectory, so a directory below that cannot be listed raises as well; the lines
  printed before that are not recorded.
\<close>

definition File_print_as_tree :: "File \<Rightarrow> world \<Rightarrow> (error + unit) \<times> world" where
  "File_print_as_tree f w =
     (let w1 = w\<lparr>stdout := stdout w @ [AbsolutePathLine (path f), TreeRootLine (directory f)]\<rparr>
      in case map_of (fs w1) (directory f) of
           None \<Rightarrow> (Inl FileNotFoundError, w1)
         | Some (RegularFile _ _) \<Rightarrow> (Inl NotADirectoryError, w1)
         | Some Directory \<Rightarrow>
             if blocked (fs w1) (unreadable w1) (directory f) then (Inl PermissionError, w1)
             else (Inr (), w1\<lparr>stdout := stdout w1 @ [TreeChildLines (directory f) (path f)]\<rparr>))"

definition File_delete_file :: "File \<Rightarrow> world \<Rightarrow> (error + unit) \<times> world" where
  "File_delete_file f w =
     (case os_remove (fs w) (undeletable w) (path f) of
        Inl e \<Rightarrow> (Inl e, w)
      | Inr fsys \<Rightarrow> (Inr (), w\<lparr>fs := fsys\<rparr>))"

definition File_delete_file_directory :: "File \<Rightarrow> world \<Rightarrow> (error + unit) \<times> world" where
  "File_delete_file_directory f w =
     (case shutil_rmtree (fs w) (undeletable w) (unreadable w) (directory f) of
        (r, fsys) \<Rightarrow> (r, w\<lparr>fs := fsys\<rparr>))"

subsection \<open>StateMachine\<close>

text \<open>
  \<^verbatim>\<open>StateMachine.__init__\<close>: \<^verbatim>\<open>files[0]\<close> raises \<^verbatim>\<open>IndexError\<close> on an empty list.
  The list \<^verbatim>\<open>directories_to_ignore\<close> is created once, in the class body; the
  constructor does not assign it, so the process state is returned as it was.
\<close>

definition StateMachine_init :: "File list \<Rightarrow> world \<Rightarrow> (error + StateMachine) \<times> world" where
  "StateMachine_init fls w =
     (case fls of
        [] \<Rightarrow> (Inl IndexError, w)
      | f # _ \<Rightarrow> (Inr \<lparr>files = fls, current_file = f\<rparr>, w))"

text \<open>The methods of \<^verbatim>\<open>StateMachine\<close> that call each other, as values: the
  dictionary \<^verbatim>\<open>self.actions\<close> stores five of them as bound methods.\<close>

datatype bound_method =
    Transition | Advance | Delete_file | Delete_file_directory
  | Skip | Skip_directory | Print_help

definition actions :: "string \<Rightarrow> bound_method option" where
  "actions = map_of
     [(''d'', Delete_file), (''D'', Delete_file_directory), (''s'', Skip),
      (''S'', Skip_directory), (''?'', Print_help)]"

text \<open>\<^verbatim>\<open>list.index\<close>: the position of the first element equal to \<open>x\<close>, or
  \<^verbatim>\<open>ValueError\<close>.\<close>

fun list_index :: "'a list \<Rightarrow> 'a \<Rightarrow> error + nat" where
  "list_index [] x = Inl ValueError"
| "list_index (y # ys) x =
     (if y = x then Inr 0
      else case list_index ys x of Inl e \<Rightarrow> Inl e | Inr i \<Rightarrow> Inr (Suc i))"

text \<open>\<^verbatim>\<open>StateMachine.prompt\<close>: draw the tree of the current file, print the prompt,
  read one line. \<^verbatim>\<open>input()\<close> raises \<^verbatim>\<open>EOFError\<close> when standard input is exhausted.
  The calls that \<open>prompt\<close> makes (the tree generator, \<^verbatim>\<open>pathlib\<close>, \<^verbatim>\<open>print\<close>) have
  returned when it returns; the model takes the stack to have room for them.\<close>

definition prompt :: "StateMachine \<Rightarrow> world \<Rightarrow> (error + string) \<times> world" where
  "prompt sm w =
     (case File_print_as_tree (current_file sm) w of
        (Inl e, w1) \<Rightarrow> (Inl e, w1)
      | (Inr _, w1) \<Rightarrow>
          (let w2 = w1\<lparr>stdout := stdout w1 @ [PromptLine]\<rparr>
           in case stdin w2 of
                [] \<Rightarrow> (Inl EOFError, w2)
              | t # ts \<Rightarrow> (Inr t, w2\<lparr>stdin := ts, stdout := stdout w2 @ [InputRead t]\<rparr>)))"

type_synonym outcome = "(error + unit) \<times> StateMachine \<times> world"

text \<open>
  The bodies of the methods. The parameter \<open>self\<close> stands for a call of another one
  of the same object: \<open>self Advance sm w\<close> is \<^verbatim>\<open>self.advance()\<close>.

  In \<open>transition_body\<close> the two calls of \<^verbatim>\<open>self.advance()\<close> are statements, not
  \<^verbatim>\<open>return\<close>s: when they return normally, control goes on to the next statement with
  whatever \<^verbatim>\<open>self.current_file\<close> then is.
\<close>

definition transition_body ::
  "(bound_method \<Rightarrow> StateMachine \<Rightarrow> world \<Rightarrow> outcome) \<Rightarrow> StateMachine \<Rightarrow> world \<Rightarrow> outcome" where
  "transition_body self sm w =
     (case (if \<not> os_path_exists (fs w) (path (current_file sm))
            then self Advance sm w else (Inr (), sm, w)) of
        (Inl e, sm1, w1) \<Rightarrow> (Inl e, sm1, w1)
      | (Inr _, sm1, w1) \<Rightarrow>
     (case (if directory (current_file sm1) \<in> set (directories_to_ignore w1)
            then self Advance sm1 w1 else (Inr (), sm1, w1)) of
        (Inl e, sm2, w2) \<Rightarrow> (Inl e, sm2, w2)
      | (Inr _, sm2, w2) \<Rightarrow>
     (case prompt sm2 w2 of
        (Inl e, w3) \<Rightarrow> (Inl e, sm2, w3)
      | (Inr choice, w3) \<Rightarrow>
          (case actions choice of
             Some m \<Rightarrow> self m sm2 w3
           | None \<Rightarrow> self Transition sm2 w3))))"

definition advance_body ::
  "(bound_method \<Rightarrow> StateMachine \<Rightarrow> world \<Rightarrow> outcome) \<Rightarrow> StateMachine \<Rightarrow> world \<Rightarrow> outcome" where
  "advance_body self sm w =
     (case list_index (files sm) (current_file sm) of
        Inl e \<Rightarrow> (Inl e, sm, w)
      | Inr current_file_index \<Rightarrow>
          (let next_file_index = current_file_index + 1
           in if next_file_index \<ge> length (files sm) then (Inr (), sm, w)
              else self Transition (sm\<lparr>current_file := files sm ! next_file_index\<rparr>) w))"

definition delete_file_body ::
  "(bound_method \<Rightarrow> StateMachine \<Rightarrow> world \<Rightarrow> outcome) \<Rightarrow> StateMachine \<Rightarrow> world \<Rightarrow> outcome" where
  "delete_file_body self sm w =
     (case File_delete_file (current_file sm) w of
        (Inl e, w1) \<Rightarrow> (Inl e, sm, w1)
      | (Inr _, w1) \<Rightarrow> self Advance sm w1)"

definition delete_file_directory_body ::
  "(bound_method \<Rightarrow> StateMachine \<Rightarrow> world \<Rightarrow> outcome) \<Rightarrow> StateMachine \<Rightarrow> world \<Rightarrow> outcome" where
  "delete_file_directory_body self sm w =
     (case File_delete_file_directory (current_file sm) w of
        (Inl e, w1) \<Rightarrow> (Inl e, sm, w1)
      | (Inr _, w1) \<Rightarrow> self Advance sm w1)"

definition skip_directory_body ::
  "(bound_method \<Rightarrow> StateMachine \<Rightarrow> world \<Rightarrow> outcome) \<Rightarrow> StateMachine \<Rightarrow> world \<Rightarrow> outcome" where
  "skip_directory_body self sm w =
     self Advance sm
       (w\<lparr>directories_to_ignore := directories_to_ignore w @ [directory (current_file sm)]\<rparr>)"

definition print_help_body ::
  "(bound_method \<Rightarrow> StateMachine \<Rightarrow> world \<Rightarrow> outcome) \<Rightarrow> StateMachine \<Rightarrow> world \<Rightarrow> outcome" where
  "print_help_body self sm w = self Transition sm (w\<lparr>stdout := stdout w @ [HelpLegend]\<rparr>)"

text \<open>
  Calling one of them. The first argument is the number of Python call frames still
  available to the session's own methods, beyond the room that \<open>prompt\<close> and the
  deletions need for their own calls: every call of one method by another uses a frame,
  given back when the callee returns, and a call with none left raises
  \<^verbatim>\<open>RecursionError\<close>, as the interpreter does at its recursion limit.
\<close>

primrec call :: "nat \<Rightarrow> bound_method \<Rightarrow> StateMachine \<Rightarrow> world \<Rightarrow> outcome" where
  "call 0 m sm w = (Inl RecursionError, sm, w)"
| "call (Suc d) m sm w =
     (case m of
        Transition \<Rightarrow> transition_body (call d) sm w
      | Advance \<Rightarrow> advance_body (call d) sm w
      | Delete_file \<Rightarrow> delete_file_body (call d) sm w
      | Delete_file_directory \<Rightarrow> delete_file_directory_body (call d) sm w
      | Skip \<Rightarrow> call d Advance sm w
      | Skip_directory \<Rightarrow> skip_directory_body (call d) sm w
      | Print_help \<Rightarrow> print_help_body (call d) sm w)"

definition transition :: "nat \<Rightarrow> StateMachine \<Rightarrow> world \<Rightarrow> outcome" where
  "transition d = call d Transition"

definition advance :: "nat \<Rightarrow> StateMachine \<Rightarrow> world \<Rightarrow> outcome" where
  "advance d = call d Advance"

subsection \<open>The catalog: File.__init__, the two orderings\<close>

text \<open>
  \<^verbatim>\<open>convert_to_human_readable_size\<close> computes a display string with floating-point
  arithmetic; only whether it raises is kept. \<^verbatim>\<open>math.log\<close> raises \<^verbatim>\<open>ValueError\<close> on a
  negative size. The unit table has nine entries, and the computed exponent
  \<^verbatim>\<open>floor(log(n) / log(1024))\<close> in double precision is nine or more from
  \<open>1024 ^ 9 - 7765300871168\<close> on, which raises \<^verbatim>\<open>IndexError\<close>; before the table is used,
  the division \<^verbatim>\<open>size_in_bytes / p\<close> (or \<^verbatim>\<open>math.pow\<close>) raises \<^verbatim>\<open>OverflowError\<close>
  for a size that rounds to \<open>2 ^ 1024\<close> or more.
\<close>

definition convert_to_human_readable_size :: "int \<Rightarrow> error + unit" where
  "convert_to_human_readable_size n =
     (if n = 0 then Inr ()
      else if n < 0 then Inl ValueError
      else if n \<ge> 2 ^ 1024 - 2 ^ 970 then Inl OverflowError
      else if n \<ge> 1024 ^ 9 - 7765300871168 then Inl IndexError
      else Inr ())"

text \<open>
  \<^verbatim>\<open>File.__init__\<close>. The last statement appends the new object to the class attribute
  \<^verbatim>\<open>File.files\<close>. The identity of the new object is the number of objects made before
  it: every object made is in \<^verbatim>\<open>File.files\<close>, and nothing is ever removed from it.
\<close>

definition File_init :: "string \<Rightarrow> int \<Rightarrow> int \<Rightarrow> world \<Rightarrow> (error + File) \<times> world" where
  "File_init p size_b age w =
     (case convert_to_human_readable_size size_b of
        Inl e \<Rightarrow> (Inl e, w)
      | Inr _ \<Rightarrow>
          (let self = \<lparr>path = p, directory = os_path_dirname p, size_in_bytes = size_b,
                       age_in_days = age, oid = length (File_files w)\<rparr>
           in (Inr self, w\<lparr>File_files := File_files w @ [self]\<rparr>)))"

text \<open>
  \<^verbatim>\<open>sorted(xs, key=..., reverse=...)\<close>. Python's sort is stable, and with
  \<^verbatim>\<open>reverse=True\<close> it reverses the list, sorts it, and reverses the result, which keeps
  elements with equal keys in their original order. \<open>sort_key\<close> is the stable
  insertion sort of the list library.
\<close>

definition sorted_py :: "('a \<Rightarrow> int) \<Rightarrow> bool \<Rightarrow> 'a list \<Rightarrow> 'a list" where
  "sorted_py key reverse xs =
     (if reverse then rev (sort_key key (rev xs)) else sort_key key xs)"

definition files_by_size :: "world \<Rightarrow> File list" where
  "files_by_size w = sorted_py size_in_bytes False (File_files w)"

definition files_by_age :: "world \<Rightarrow> File list" where
  "files_by_age w = sorted_py age_in_days True (File_files w)"

subsection \<open>The scan in main\<close>

text \<open>The components of a path, and \<^verbatim>\<open>glob._ishidden\<close>.\<close>

fun split_slash :: "string \<Rightarrow> string list" where
  "split_slash [] = [[]]"
| "split_slash (c # cs) =
     (if c = CHR ''/'' then [] # split_slash cs
      else case split_slash cs of
             [] \<Rightarrow> [[c]]
           | x # xs \<Rightarrow> (c # x) # xs)"

definition ishidden :: "string \<Rightarrow> bool" where
  "ishidden name = (case name of [] \<Rightarrow> False | c # _ \<Rightarrow> c = CHR ''.'')"

text \<open>The path \<open>q\<close> relative to the directory \<open>d\<close> it lies below.\<close>

definition relative_to :: "string \<Rightarrow> string \<Rightarrow> string" where
  "relative_to d q =
     drop (length (if d \<noteq> [] \<and> last d = CHR ''/'' then d else d @ ''/'')) q"

text \<open>\<open>visible_below d q\<close>: the path \<open>q\<close> lies below \<open>d\<close> and no name on the way from
  \<open>d\<close> to \<open>q\<close>, its own included, begins with a dot.\<close>

definition visible_below :: "string \<Rightarrow> string \<Rightarrow> bool" where
  "visible_below d q =
     (below d q \<and> list_all (\<lambda>name. \<not> ishidden name) (split_slash (relative_to d q)))"

text \<open>\<open>reachable unr d q\<close>: every directory that has to be listed to get from \<open>d\<close> to
  \<open>q\<close>, the directory \<open>d\<close> included, can be listed.\<close>

definition reachable :: "string list \<Rightarrow> string \<Rightarrow> string \<Rightarrow> bool" where
  "reachable unr d q = list_all (\<lambda>u. \<not> ((u = d \<or> below d u) \<and> below u q)) unr"

text \<open>
  \<^verbatim>\<open>glob.has_magic\<close>, and the roots that the model covers: an absolute path, not the
  root directory itself, written without wildcard characters, without a trailing slash
  and without empty, \<^verbatim>\<open>.\<close> or \<^verbatim>\<open>..\<close> components. A root with a wildcard is a pattern
  for \<^verbatim>\<open>glob\<close>, and a relative or unnormalised root is resolved against the working
  directory; neither is modelled.
\<close>

definition has_magic :: "string \<Rightarrow> bool" where
  "has_magic s = list_ex (\<lambda>c. c = CHR ''*'' \<or> c = CHR ''?'' \<or> c = CHR ''['') s"

definition plain_root :: "string \<Rightarrow> bool" where
  "plain_root d =
     (\<not> has_magic d \<and>
      (case split_slash d of
         [] \<Rightarrow> False
       | c # cs \<Rightarrow> c = [] \<and> cs \<noteq> [] \<and>
                  list_all (\<lambda>name. name \<noteq> [] \<and> name \<noteq> ''.'' \<and> name \<noteq> ''..'') cs))"

text \<open>
  \<^verbatim>\<open>glob.glob(directory + "/**/*", recursive=True)\<close> for a root that the model covers
  (\<open>None\<close> for any other), by the documented behaviour of the library: \<^verbatim>\<open>**\<close> stands
  for the directory itself and every directory below it, \<^verbatim>\<open>*\<close> for every entry of such
  a directory, and neither matches a name that begins with a dot. A directory that
  cannot be listed (missing, not a directory, refused) contributes nothing and raises
  nothing, so such a root gives the empty list. The result is in listing order.
\<close>

definition glob_glob :: "filesystem \<Rightarrow> string list \<Rightarrow> string \<Rightarrow> string list option" where
  "glob_glob fsys unr d =
     (if plain_root d
      then Some (if os_path_isdir fsys d
                 then map fst (filter (\<lambda>(q, _). visible_below d q \<and> reachable unr d q) fsys)
                 else [])
      else None)"

definition os_path_getsize :: "filesystem \<Rightarrow> string \<Rightarrow> error + int" where
  "os_path_getsize fsys p =
     (case map_of fsys p of
        None \<Rightarrow> Inl FileNotFoundError
      | Some Directory \<Rightarrow> Inr 4096
      | Some (RegularFile n _) \<Rightarrow> Inr (int n))"

definition os_stat_st_ctime :: "filesystem \<Rightarrow> string \<Rightarrow> error + int" where
  "os_stat_st_ctime fsys p =
     (case map_of fsys p of
        None \<Rightarrow> Inl FileNotFoundError
      | Some Directory \<Rightarrow> Inr 0
      | Some (RegularFile _ t) \<Rightarrow> Inr t)"

definition microseconds_per_day :: int where
  "microseconds_per_day = 86400 * 1000000"

text \<open>
  The \<^verbatim>\<open>for\<close> loop of \<^verbatim>\<open>main\<close> over the paths that \<^verbatim>\<open>glob\<close> returned.
  \<^verbatim>\<open>timedelta.days\<close> is the floor of the difference in days; the two local times are
  taken in a zone whose offset does not change between them. The paths of the model are
  absolute and normalised, so \<^verbatim>\<open>os.path.abspath\<close> leaves them as they are.
\<close>

fun scan_loop :: "string list \<Rightarrow> world \<Rightarrow> (error + unit) \<times> world" where
  "scan_loop [] w = (Inr (), w)"
| "scan_loop (p # ps) w =
     (if os_path_isdir (fs w) p then scan_loop ps w
      else case os_path_getsize (fs w) p of
             Inl e \<Rightarrow> (Inl e, w)
           | Inr size_b \<Rightarrow>
          (case os_stat_st_ctime (fs w) p of
             Inl e \<Rightarrow> (Inl e, w)
           | Inr ctime \<Rightarrow>
          (case File_init p size_b ((now w - ctime) div microseconds_per_day) w of
             (Inl e, w1) \<Rightarrow> (Inl e, w1)
           | (Inr _, w1) \<Rightarrow> scan_loop ps w1)))"

definition scan :: "string \<Rightarrow> world \<Rightarrow> ((error + unit) \<times> world) option" where
  "scan d w =
     (case glob_glob (fs w) (unreadable w) d of
        None \<Rightarrow> None
      | Some ps \<Rightarrow> Some (scan_loop ps w))"

text \<open>
  \<^verbatim>\<open>main\<close>, for a process that runs as root and was given the two arguments. With an
  \<^verbatim>\<open>order_by\<close> that is neither \<^verbatim>\<open>age\<close> nor \<^verbatim>\<open>size\<close> the name \<^verbatim>\<open>files\<close> is never
  bound. The first argument is the call depth available to the session.
\<close>

definition main :: "nat \<Rightarrow> string \<Rightarrow> string \<Rightarrow> world \<Rightarrow> ((error + unit) \<times> world) option" where
  "main depth d order_by w =
     (case scan d w of
        None \<Rightarrow> None
      | Some (Inl e, w1) \<Rightarrow> Some (Inl e, w1)
      | Some (Inr _, w1) \<Rightarrow>
          (case (if order_by = ''age'' then Inr (files_by_age w1)
                 else if order_by = ''size'' then Inr (files_by_size w1)
                 else Inl UnboundLocalError) of
             Inl e \<Rightarrow> Some (Inl e, w1)
           | Inr fls \<Rightarrow>
               (case StateMachine_init fls w1 of
                  (Inl e, w2) \<Rightarrow> Some (Inl e, w2)
                | (Inr sm, w2) \<Rightarrow>
                    (case transition depth sm w2 of (r, _, w3) \<Rightarrow> Some (r, w3)))))"

subsection \<open>Notions used in the statements\<close>

text \<open>The cursor of a session is the position of \<^verbatim>\<open>current_file\<close> in \<^verbatim>\<open>files\<close>, as
  \<open>advance\<close> computes it; \<open>at_last\<close> says that no position follows it.\<close>

definition at_last :: "StateMachine \<Rightarrow> bool" where
  "at_last sm = (case list_index (files sm) (current_file sm) of
                   Inl _ \<Rightarrow> False
                 | Inr i \<Rightarrow> length (files sm) \<le> Suc i)"

text \<open>What a call may change: the list of files is kept, the two output-like lists and
  the list of ignored directories only grow at the end, input is only consumed, the file
  system only loses entries and the refusals stay.\<close>

definition changes :: "StateMachine \<Rightarrow> world \<Rightarrow> StateMachine \<Rightarrow> world \<Rightarrow> bool" where
  "changes sm w sm' w' =
     (files sm' = files sm \<and>
      prefix (directories_to_ignore w) (directories_to_ignore w') \<and>
      prefix (stdout w) (stdout w') \<and>
      suffix (stdin w') (stdin w) \<and>
      File_files w' = File_files w \<and> now w' = now w \<and>
      undeletable w' = undeletable w \<and> unreadable w' = unreadable w \<and>
      set (fs w') \<subseteq> set (fs w))"

definition frame :: "StateMachine \<Rightarrow> world \<Rightarrow> outcome \<Rightarrow> bool" where
  "frame sm w out =
     (case out of (r, sm', w') \<Rightarrow> changes sm w sm' w' \<and> (r = Inr () \<longrightarrow> at_last sm'))"

text \<open>The current record is fresh when neither of the two checks at the head of
  \<open>transition\<close> fires for it: its path exists and its directory is not ignored.\<close>

definition fresh :: "StateMachine \<Rightarrow> world \<Rightarrow> bool" where
  "fresh sm w = (os_path_exists (fs w) (path (current_file sm)) \<and>
                 directory (current_file sm) \<notin> set (directories_to_ignore w))"

text \<open>The output of one successful \<open>prompt\<close> before the line is read, and the state
  after the line \<open>t\<close> has been read.\<close>

definition render_events :: "File \<Rightarrow> event list" where
  "render_events f =
     [AbsolutePathLine (path f), TreeRootLine (directory f),
      TreeChildLines (directory f) (path f), PromptLine]"

definition read_token :: "File \<Rightarrow> string \<Rightarrow> string list \<Rightarrow> world \<Rightarrow> world" where
  "read_token f t ts w = w\<lparr>stdin := ts, stdout := stdout w @ render_events f @ [InputRead t]\<rparr>"

text \<open>The statements of \<open>transition\<close> that follow the two checks.\<close>

definition after_checks ::
  "(bound_method \<Rightarrow> StateMachine \<Rightarrow> world \<Rightarrow> outcome) \<Rightarrow> StateMachine \<Rightarrow> world \<Rightarrow> outcome" where
  "after_checks self sm w =
     (case prompt sm w of
        (Inl e, w3) \<Rightarrow> (Inl e, sm, w3)
      | (Inr choice, w3) \<Rightarrow>
          (case actions choice of
             Some m \<Rightarrow> self m sm w3
           | None \<Rightarrow> self Transition sm w3))"

text \<open>The directory \<open>d\<close> can be drawn: it is a directory, and it and every directory
  below it can be listed.\<close>

definition drawable :: "world \<Rightarrow> string \<Rightarrow> bool" where
  "drawable w d = (os_path_isdir (fs w) d \<and> \<not> blocked (fs w) (unreadable w) d)"




subsection \<open>Concrete states\<close>

text \<open>Two files in one directory, scanned one day after they were written.\<close>

definition ex_a :: File where
  "ex_a = \<lparr>path = ''/x/a'', directory = ''/x'', size_in_bytes = 5, age_in_days = 1, oid = 0\<rparr>"

definition ex_b :: File where
  "ex_b = \<lparr>path = ''/x/b'', directory = ''/x'', size_in_bytes = 10, age_in_days = 1, oid = 1\<rparr>"

definition ex_fs :: filesystem where
  "ex_fs = [(''/x'', Directory), (''/x/a'', RegularFile 5 0), (''/x/b'', RegularFile 10 0)]"

definition ex_world :: "string list \<Rightarrow> world" where
  "ex_world inputs =
     \<lparr>fs = ex_fs, undeletable = [], unreadable = [], directories_to_ignore = [], File_files = [ex_a, ex_b],
      stdin = inputs, stdout = [], now = 86400000000\<rparr>"

definition ex_session :: StateMachine where
  "ex_session = \<lparr>files = [ex_a, ex_b], current_file = ex_a\<rparr>"

text \<open>A catalog of one file that has been removed since the scan; its directory is
  still there.\<close>

definition ex_gone_world :: "string list \<Rightarrow> world" where
  "ex_gone_world inputs =
     \<lparr>fs = [(''/x'', Directory)], undeletable = [], unreadable = [],
      directories_to_ignore = [], File_files = [ex_a],
      stdin = inputs, stdout = [], now = 86400000000\<rparr>"

definition ex_single :: StateMachine where
  "ex_single = \<lparr>files = [ex_a], current_file = ex_a\<rparr>"

text \<open>A new process: no \<^verbatim>\<open>File\<close> object has been constructed yet.\<close>

definition ex_fresh_world :: world where
  "ex_fresh_world =
     \<lparr>fs = ex_fs, undeletable = [], unreadable = [], directories_to_ignore = [], File_files = [],
      stdin = [], stdout = [], now = 86400000000\<rparr>"

text \<open>A directory whose only entry has a name that begins with a dot.\<close>

definition ex_hidden_world :: world where
  "ex_hidden_world =
     \<lparr>fs = [(''/x'', Directory), (''/x/.hidden'', RegularFile 7 0)],
      undeletable = [], unreadable = [], directories_to_ignore = [], File_files = [],
      stdin = [], stdout = [], now = 86400000000\<rparr>"

text \<open>A tree with a hidden file, a hidden directory and a visible subdirectory.\<close>

definition ex_tree_world :: world where
  "ex_tree_world =
     \<lparr>fs = [(''/r'', Directory), (''/r/a'', RegularFile 5 0), (''/r/.h'', RegularFile 10 0),
            (''/r/sub'', Directory), (''/r/sub/b'', RegularFile 3 0),
            (''/r/.git'', Directory), (''/r/.git/c'', RegularFile 3 0)],
      undeletable = [], unreadable = [], directories_to_ignore = [], File_files = [],
      stdin = [], stdout = [], now = 86400000000\<rparr>"

text \<open>The two files of \<open>ex_world\<close>, with paths that the operating system refuses to
  remove.\<close>

definition ex_locked_world :: "string list \<Rightarrow> string list \<Rightarrow> world" where
  "ex_locked_world und inputs = (ex_world inputs)\<lparr>undeletable := und\<rparr>"

text \<open>The tree of \<open>ex_tree_world\<close>, in which \<^verbatim>\<open>/r/sub\<close> cannot be listed.\<close>

definition ex_closed_world :: world where
  "ex_closed_world = ex_tree_world\<lparr>unreadable := [''/r/sub'']\<rparr>"

text \<open>Three files made in an order that is neither the order of their sizes nor that of
  their ages.\<close>

definition ex_f1 :: File where
  "ex_f1 = \<lparr>path = ''/x/f1'', directory = ''/x'', size_in_bytes = 10, age_in_days = 2, oid = 0\<rparr>"

definition ex_f2 :: File where
  "ex_f2 = \<lparr>path = ''/x/f2'', directory = ''/x'', size_in_bytes = 5, age_in_days = 1, oid = 1\<rparr>"

definition ex_f3 :: File where
  "ex_f3 = \<lparr>path = ''/x/f3'', directory = ''/x'', size_in_bytes = 7, age_in_days = 3, oid = 2\<rparr>"

definition ex_ranked_world :: world where
  "ex_ranked_world = ex_fresh_world\<lparr>File_files := [ex_f1, ex_f2, ex_f3]\<rparr>"

text \<open>The tree of \<open>ex_tree_world\<close> when its root \<^verbatim>\<open>/r\<close> cannot be listed.\<close>

definition ex_shut_world :: world where
  "ex_shut_world = ex_tree_world\<lparr>unreadable := [''/r'']\<rparr>"

section \<open>Properties of the session\<close>

subsection \<open>What every call preserves\<close>

lemma call_Suc:
  "call (Suc d) Transition sm w = transition_body (call d) sm w"
  "call (Suc d) Advance sm w = advance_body (call d) sm w"
  "call (Suc d) Delete_file sm w = delete_file_body (call d) sm w"
  "call (Suc d) Delete_file_directory sm w = delete_file_directory_body (call d) sm w"
  "call (Suc d) Skip sm w = call d Advance sm w"
  "call (Suc d) Skip_directory sm w = skip_directory_body (call d) sm w"
  "call (Suc d) Print_help sm w = print_help_body (call d) sm w"
  by simp_all

declare call.simps(2) [simp del]

lemma changes_refl: "changes sm w sm w"
  by (simp add: changes_def)

lemma changes_trans:
  "changes sm w sm1 w1 \<Longrightarrow> changes sm1 w1 sm2 w2 \<Longrightarrow> changes sm w sm2 w2"
  unfolding changes_def
  by (auto intro: prefix_order.trans suffix_order.trans)

lemma frame_after:
  "changes sm w sm1 w1 \<Longrightarrow> frame sm1 w1 out \<Longrightarrow> frame sm w out"
  unfolding frame_def by (auto split: prod.splits intro: changes_trans)

lemma frame_err: "changes sm w sm' w' \<Longrightarrow> frame sm w (Inl e, sm', w')"
  by (simp add: frame_def)

lemma frame_changes: "frame sm w (r, sm', w') \<Longrightarrow> changes sm w sm' w'"
  by (simp add: frame_def)

lemma prompt_changes: "prompt sm w = (r, w') \<Longrightarrow> changes sm w sm w'"
  by (auto simp: changes_def prompt_def File_print_as_tree_def Let_def suffix_def
           split: option.splits entry.splits list.splits if_splits)

lemma prompt_fs: "prompt sm w = (r, w') \<Longrightarrow> fs w' = fs w"
  by (auto simp: prompt_def File_print_as_tree_def Let_def
           split: option.splits entry.splits list.splits if_splits)

lemma prompt_ignore:
  "prompt sm w = (r, w') \<Longrightarrow> directories_to_ignore w' = directories_to_ignore w"
  by (auto simp: prompt_def File_print_as_tree_def Let_def
           split: option.splits entry.splits list.splits if_splits)

lemma os_remove_subset: "os_remove fsys und p = Inr fsys' \<Longrightarrow> set fsys' \<subseteq> set fsys"
  by (auto simp: os_remove_def split: option.splits if_splits)

lemma os_rmdir_subset: "os_rmdir fsys und p = Inr fsys' \<Longrightarrow> set fsys' \<subseteq> set fsys"
  by (auto simp: os_rmdir_def split: option.splits if_splits)

lemma rm_entries_subset:
  assumes "\<And>c f. set (snd (sub c f)) \<subseteq> set f"
  shows "set (snd (rm_entries sub und cs fsys)) \<subseteq> set fsys"
proof (induction cs arbitrary: fsys)
  case Nil
  then show ?case by simp
next
  case (Cons c cs)
  show ?case
  proof (cases "os_path_isdir fsys c")
    case True
    obtain r f1 where e: "sub c fsys = (r, f1)" by (cases "sub c fsys") auto
    have s1: "set f1 \<subseteq> set fsys" using assms [of c fsys] e by simp
    show ?thesis
    proof (cases r)
      case (Inl x)
      with True e s1 show ?thesis by simp
    next
      case (Inr u)
      show ?thesis
      proof (cases "os_rmdir f1 und c")
        case (Inl x)
        with True e Inr s1 show ?thesis by simp
      next
        case rm: (Inr f2)
        then have "set f2 \<subseteq> set f1" by (rule os_rmdir_subset)
        moreover have "set (snd (rm_entries sub und cs f2)) \<subseteq> set f2" by (rule Cons.IH)
        ultimately show ?thesis using True e Inr rm s1 by auto
      qed
    qed
  next
    case False
    show ?thesis
    proof (cases "os_remove fsys und c")
      case (Inl x)
      with False show ?thesis by simp
    next
      case rm: (Inr f1)
      then have "set f1 \<subseteq> set fsys" by (rule os_remove_subset)
      moreover have "set (snd (rm_entries sub und cs f1)) \<subseteq> set f1" by (rule Cons.IH)
      ultimately show ?thesis using False rm by auto
    qed
  qed
qed

lemma rmtree_in_subset: "set (snd (rmtree_in k und unr d fsys)) \<subseteq> set fsys"
proof (induction k arbitrary: d fsys)
  case 0
  show ?case by simp
next
  case (Suc k)
  show ?case by (simp add: rm_entries_subset Suc)
qed

lemma shutil_rmtree_subset: "set (snd (shutil_rmtree fsys und unr d)) \<subseteq> set fsys"
proof (cases "map_of fsys d")
  case None
  then show ?thesis by (simp add: shutil_rmtree_def)
next
  case (Some e)
  show ?thesis
  proof (cases e)
    case (RegularFile n t)
    with Some show ?thesis by (simp add: shutil_rmtree_def)
  next
    case Directory
    obtain r f1 where t: "rmtree_in (length fsys) und unr d fsys = (r, f1)"
      by (cases "rmtree_in (length fsys) und unr d fsys") auto
    have s1: "set f1 \<subseteq> set fsys" using rmtree_in_subset [of "length fsys" und unr d fsys] t by simp
    show ?thesis
    proof (cases r)
      case (Inl x)
      with Some Directory t s1 show ?thesis by (simp add: shutil_rmtree_def)
    next
      case (Inr u)
      show ?thesis
      proof (cases "os_rmdir f1 und d")
        case (Inl x)
        with Some Directory t Inr s1 show ?thesis by (simp add: shutil_rmtree_def)
      next
        case rm: (Inr f2)
        then have "set f2 \<subseteq> set f1" by (rule os_rmdir_subset)
        with Some Directory t Inr rm s1 show ?thesis by (auto simp: shutil_rmtree_def)
      qed
    qed
  qed
qed

lemma File_delete_file_changes:
  assumes "File_delete_file f w = (r, w')"
  shows "changes sm w sm w'"
proof (cases "os_remove (fs w) (undeletable w) (path f)")
  case (Inl e)
  with assms show ?thesis by (auto simp: changes_def File_delete_file_def)
next
  case (Inr fsys)
  then have "set fsys \<subseteq> set (fs w)" by (rule os_remove_subset)
  with assms Inr show ?thesis by (auto simp: changes_def File_delete_file_def)
qed

lemma File_delete_file_directory_changes:
  assumes "File_delete_file_directory f w = (r, w')"
  shows "changes sm w sm w'"
proof -
  obtain r1 f1 where t: "shutil_rmtree (fs w) (undeletable w) (unreadable w) (directory f) = (r1, f1)"
    by (cases "shutil_rmtree (fs w) (undeletable w) (unreadable w) (directory f)") auto
  have "set f1 \<subseteq> set (fs w)"
    using shutil_rmtree_subset [of "fs w" "undeletable w" "unreadable w" "directory f"] t by simp
  with assms t show ?thesis by (auto simp: changes_def File_delete_file_directory_def)
qed

lemma advance_body_frame:
  assumes self: "\<And>m sm w. frame sm w (self m sm w)"
  shows "frame sm w (advance_body self sm w)"
proof (cases "list_index (files sm) (current_file sm)")
  case (Inl e)
  then show ?thesis by (simp add: advance_body_def frame_err changes_refl)
next
  case (Inr i)
  show ?thesis
  proof (cases "length (files sm) \<le> Suc i")
    case True
    with Inr show ?thesis by (simp add: advance_body_def frame_def at_last_def changes_refl)
  next
    case False
    let ?sm1 = "sm\<lparr>current_file := files sm ! Suc i\<rparr>"
    have "changes sm w ?sm1 w" by (simp add: changes_def)
    then have "frame sm w (self Transition ?sm1 w)"
      by (rule frame_after) (rule self)
    with Inr False show ?thesis by (simp add: advance_body_def)
  qed
qed

lemma delete_file_body_frame:
  assumes self: "\<And>m sm w. frame sm w (self m sm w)"
  shows "frame sm w (delete_file_body self sm w)"
proof (cases "File_delete_file (current_file sm) w")
  case (Pair r w1)
  note ch = File_delete_file_changes [OF Pair, of sm]
  show ?thesis
  proof (cases r)
    case (Inl e)
    with Pair ch show ?thesis by (simp add: delete_file_body_def frame_err)
  next
    case (Inr u)
    have "frame sm w (self Advance sm w1)" using ch by (rule frame_after) (rule self)
    with Pair Inr show ?thesis by (simp add: delete_file_body_def)
  qed
qed

lemma delete_file_directory_body_frame:
  assumes self: "\<And>m sm w. frame sm w (self m sm w)"
  shows "frame sm w (delete_file_directory_body self sm w)"
proof (cases "File_delete_file_directory (current_file sm) w")
  case (Pair r w1)
  note ch = File_delete_file_directory_changes [OF Pair, of sm]
  show ?thesis
  proof (cases r)
    case (Inl e)
    with Pair ch show ?thesis by (simp add: delete_file_directory_body_def frame_err)
  next
    case (Inr u)
    have "frame sm w (self Advance sm w1)" using ch by (rule frame_after) (rule self)
    with Pair Inr show ?thesis by (simp add: delete_file_directory_body_def)
  qed
qed

lemma skip_directory_body_frame:
  assumes self: "\<And>m sm w. frame sm w (self m sm w)"
  shows "frame sm w (skip_directory_body self sm w)"
proof -
  let ?w1 = "w\<lparr>directories_to_ignore := directories_to_ignore w @ [directory (current_file sm)]\<rparr>"
  have "changes sm w sm ?w1" by (simp add: changes_def)
  then have "frame sm w (self Advance sm ?w1)" by (rule frame_after) (rule self)
  then show ?thesis by (simp add: skip_directory_body_def)
qed

lemma print_help_body_frame:
  assumes self: "\<And>m sm w. frame sm w (self m sm w)"
  shows "frame sm w (print_help_body self sm w)"
proof -
  let ?w1 = "w\<lparr>stdout := stdout w @ [HelpLegend]\<rparr>"
  have "changes sm w sm ?w1" by (simp add: changes_def)
  then have "frame sm w (self Transition sm ?w1)" by (rule frame_after) (rule self)
  then show ?thesis by (simp add: print_help_body_def)
qed

lemma transition_tail_frame:
  assumes self: "\<And>m sm w. frame sm w (self m sm w)"
  shows "frame sm w
    (case prompt sm w of
        (Inl e, w3) \<Rightarrow> (Inl e, sm, w3)
      | (Inr choice, w3) \<Rightarrow>
          (case actions choice of
             Some m \<Rightarrow> self m sm w3
           | None \<Rightarrow> self Transition sm w3))"
proof (cases "prompt sm w")
  case (Pair r w3)
  note ch = prompt_changes [OF Pair]
  show ?thesis
  proof (cases r)
    case (Inl e)
    with Pair ch show ?thesis by (simp add: frame_err)
  next
    case (Inr choice)
    have "frame sm w (self m sm w3)" for m using ch by (rule frame_after) (rule self)
    with Pair Inr show ?thesis by (simp split: option.splits)
  qed
qed

lemma transition_body_frame:
  assumes self: "\<And>m sm w. frame sm w (self m sm w)"
  shows "frame sm w (transition_body self sm w)"
proof -
  let ?tail = "\<lambda>sm2 w2. (case prompt sm2 w2 of
        (Inl e, w3) \<Rightarrow> (Inl e, sm2, w3)
      | (Inr choice, w3) \<Rightarrow>
          (case actions choice of
             Some m \<Rightarrow> self m sm2 w3
           | None \<Rightarrow> self Transition sm2 w3))"
  let ?second = "\<lambda>sm1 w1. (case (if directory (current_file sm1) \<in> set (directories_to_ignore w1)
            then self Advance sm1 w1 else (Inr (), sm1, w1)) of
        (Inl e, sm2, w2) \<Rightarrow> (Inl e, sm2, w2)
      | (Inr _, sm2, w2) \<Rightarrow> ?tail sm2 w2)"
  have tail: "frame sm2 w2 (?tail sm2 w2)" for sm2 w2
    by (rule transition_tail_frame) (rule self)
  have second: "frame sm1 w1 (?second sm1 w1)" for sm1 w1
  proof (cases "directory (current_file sm1) \<in> set (directories_to_ignore w1)")
    case False
    then show ?thesis using tail [of sm1 w1] by simp
  next
    case True
    obtain r sm2 w2 where a: "self Advance sm1 w1 = (r, sm2, w2)"
      by (cases "self Advance sm1 w1") auto
    have ch: "changes sm1 w1 sm2 w2" using self [of sm1 w1 Advance] a by (simp add: frame_def)
    show ?thesis
    proof (cases r)
      case (Inl e)
      with True a ch show ?thesis by (simp add: frame_err)
    next
      case (Inr u)
      have "frame sm1 w1 (?tail sm2 w2)" using ch tail by (rule frame_after)
      with True a Inr show ?thesis by simp
    qed
  qed
  have "frame sm w (case (if \<not> os_path_exists (fs w) (path (current_file sm))
            then self Advance sm w else (Inr (), sm, w)) of
        (Inl e, sm1, w1) \<Rightarrow> (Inl e, sm1, w1)
      | (Inr _, sm1, w1) \<Rightarrow> ?second sm1 w1)"
  proof (cases "os_path_exists (fs w) (path (current_file sm))")
    case True
    then show ?thesis using second [of sm w] by simp
  next
    case False
    obtain r sm1 w1 where a: "self Advance sm w = (r, sm1, w1)"
      by (cases "self Advance sm w") auto
    have ch: "changes sm w sm1 w1" using self [of sm w Advance] a by (simp add: frame_def)
    show ?thesis
    proof (cases r)
      case (Inl e)
      with False a ch show ?thesis by (simp add: frame_err)
    next
      case (Inr u)
      have "frame sm w (?second sm1 w1)" using ch second by (rule frame_after)
      with False a Inr show ?thesis by simp
    qed
  qed
  then show ?thesis by (simp add: transition_body_def)
qed

lemma call_frame: "frame sm w (call d m sm w)"
proof (induction d arbitrary: m sm w)
  case 0
  show ?case by (simp add: frame_err changes_refl)
next
  case (Suc d)
  show ?case
    by (cases m)
       (simp_all add: call_Suc transition_body_frame advance_body_frame delete_file_body_frame
          delete_file_directory_body_frame skip_directory_body_frame print_help_body_frame Suc)
qed

subsection \<open>Reading a line for the current record\<close>

lemma prompt_reads:
  assumes "drawable w (directory (current_file sm))" and "stdin w = t # ts"
  shows "prompt sm w = (Inr t, read_token (current_file sm) t ts w)"
  using assms
  by (simp add: prompt_def File_print_as_tree_def drawable_def os_path_isdir_def Let_def
        read_token_def render_events_def)


lemma advance_at_last:
  "at_last sm \<Longrightarrow> call (Suc d) Advance sm w = (Inr (), sm, w)"
  by (auto simp: call_Suc at_last_def advance_body_def split: sum.splits)

lemma transition_fresh:
  "fresh sm w \<Longrightarrow> transition_body self sm w = after_checks self sm w"
  by (simp add: fresh_def transition_body_def after_checks_def)

lemma transition_at_last:
  "at_last sm \<Longrightarrow> transition_body (call (Suc d)) sm w = after_checks (call (Suc d)) sm w"
  by (simp add: transition_body_def after_checks_def advance_at_last)

lemma transition_promptable:
  "fresh sm w \<or> at_last sm \<Longrightarrow>
     call (Suc (Suc d)) Transition sm w = after_checks (call (Suc d)) sm w"
  by (auto simp: call_Suc(1) transition_fresh transition_at_last)

lemma after_checks_reads:
  assumes "drawable w (directory (current_file sm))" and "stdin w = t # ts"
  shows "after_checks self sm w =
     (case actions t of
        Some m \<Rightarrow> self m sm (read_token (current_file sm) t ts w)
      | None \<Rightarrow> self Transition sm (read_token (current_file sm) t ts w))"
  by (simp add: after_checks_def prompt_reads [OF assms])

lemma fresh_read_token [simp]: "fresh sm (read_token f t ts w) = fresh sm w"
  by (simp add: fresh_def read_token_def)

lemma fs_read_token [simp]: "fs (read_token f t ts w) = fs w"
  and ignore_read_token [simp]:
    "directories_to_ignore (read_token f t ts w) = directories_to_ignore w"
  and stdin_read_token [simp]: "stdin (read_token f t ts w) = ts"
  and stdout_read_token [simp]:
    "stdout (read_token f t ts w) = stdout w @ render_events f @ [InputRead t]"
  and undeletable_read_token [simp]: "undeletable (read_token f t ts w) = undeletable w"
  and unreadable_read_token [simp]: "unreadable (read_token f t ts w) = unreadable w"
  and drawable_read_token [simp]: "drawable (read_token f t ts w) d = drawable w d"
  by (simp_all add: read_token_def drawable_def)




lemma reprompt_fresh:
  assumes "fresh sm w"
    and "drawable w (directory (current_file sm))"
    and "stdin w = t # ts" and "actions t = None"
  shows "call (Suc d) Transition sm w =
         call d Transition sm (read_token (current_file sm) t ts w)"
  using assms by (simp add: call_Suc(1) transition_fresh after_checks_reads)

lemma reprompt_many:
  assumes "drawable w (directory (current_file sm))" and "actions t = None"
  shows "fresh sm w \<Longrightarrow> stdin w = replicate n t @ rest \<Longrightarrow>
     call (n + k) Transition sm w =
     call k Transition sm
       (w\<lparr>stdin := rest,
          stdout := stdout w @ concat (replicate n (render_events (current_file sm) @ [InputRead t]))\<rparr>)"
  using assms(1)
proof (induction n arbitrary: w)
  case 0
  then have "rest = stdin w" by simp
  then show ?case by simp
next
  case (Suc n)
  let ?w1 = "read_token (current_file sm) t (replicate n t @ rest) w"
  have "call (Suc n + k) Transition sm w = call (n + k) Transition sm ?w1"
    using Suc.prems assms(2) by (simp add: reprompt_fresh)
  also have "\<dots> = call k Transition sm
       (?w1\<lparr>stdin := rest,
          stdout := stdout ?w1 @ concat (replicate n (render_events (current_file sm) @ [InputRead t]))\<rparr>)"
    using Suc.prems by (intro Suc.IH) simp_all
  finally show ?case by (simp add: read_token_def)
qed

lemma skip_step:
  assumes "fresh sm w"
    and "drawable w (directory (current_file sm))"
    and "stdin w = ''s'' # ts"
    and "list_index (files sm) (current_file sm) = Inr i" and "Suc i < length (files sm)"
  shows "call (Suc (Suc (Suc d))) Transition sm w =
         call d Transition (sm\<lparr>current_file := files sm ! Suc i\<rparr>)
           (read_token (current_file sm) ''s'' ts w)"
  using assms
  by (simp add: call_Suc transition_fresh after_checks_reads actions_def advance_body_def)

lemma skip_directory_step:
  assumes "fresh sm w"
    and "drawable w (directory (current_file sm))"
    and "stdin w = ''S'' # ts"
    and "list_index (files sm) (current_file sm) = Inr i" and "Suc i < length (files sm)"
  shows "call (Suc (Suc (Suc d))) Transition sm w =
         call d Transition (sm\<lparr>current_file := files sm ! Suc i\<rparr>)
           ((read_token (current_file sm) ''S'' ts w)
              \<lparr>directories_to_ignore := directories_to_ignore w @ [directory (current_file sm)]\<rparr>)"
  using assms
  by (simp add: call_Suc transition_fresh after_checks_reads actions_def advance_body_def
        skip_directory_body_def)

lemma delete_file_step:
  assumes "fresh sm w"
    and "drawable w (directory (current_file sm))"
    and "stdin w = ''d'' # ts"
    and "os_remove (fs w) (undeletable w) (path (current_file sm)) = Inr fsys"
    and "list_index (files sm) (current_file sm) = Inr i" and "Suc i < length (files sm)"
  shows "call (Suc (Suc (Suc d))) Transition sm w =
         call d Transition (sm\<lparr>current_file := files sm ! Suc i\<rparr>)
           ((read_token (current_file sm) ''d'' ts w)\<lparr>fs := fsys\<rparr>)"
  using assms
  by (simp add: call_Suc transition_fresh after_checks_reads actions_def advance_body_def
        delete_file_body_def File_delete_file_def)

lemma delete_file_directory_step:
  assumes "fresh sm w"
    and "drawable w (directory (current_file sm))"
    and "stdin w = ''D'' # ts"
    and "shutil_rmtree (fs w) (undeletable w) (unreadable w) (directory (current_file sm))
           = (Inr (), fsys)"
    and "list_index (files sm) (current_file sm) = Inr i" and "Suc i < length (files sm)"
  shows "call (Suc (Suc (Suc d))) Transition sm w =
         call d Transition (sm\<lparr>current_file := files sm ! Suc i\<rparr>)
           ((read_token (current_file sm) ''D'' ts w)\<lparr>fs := fsys\<rparr>)"
  using assms
  by (simp add: call_Suc transition_fresh after_checks_reads actions_def advance_body_def
        delete_file_directory_body_def File_delete_file_directory_def)

lemma delete_file_fails:
  "os_remove (fs w) (undeletable w) (path (current_file sm)) = Inl e \<Longrightarrow>
     call (Suc d) Delete_file sm w = (Inl e, sm, w)"
  by (simp add: call_Suc delete_file_body_def File_delete_file_def)

lemma delete_file_directory_fails:
  "shutil_rmtree (fs w) (undeletable w) (unreadable w) (directory (current_file sm))
     = (Inl e, fsys) \<Longrightarrow>
   call (Suc d) Delete_file_directory sm w = (Inl e, sm, w\<lparr>fs := fsys\<rparr>)"
  by (simp add: call_Suc delete_file_directory_body_def File_delete_file_directory_def)

lemma session_delete_file_fails:
  assumes "fresh sm w \<or> at_last sm"
    and "drawable w (directory (current_file sm))"
    and "stdin w = ''d'' # ts"
    and "os_remove (fs w) (undeletable w) (path (current_file sm)) = Inl e"
  shows "call (Suc (Suc (Suc d))) Transition sm w =
           (Inl e, sm, read_token (current_file sm) ''d'' ts w)"
  using assms
  by (simp add: transition_promptable after_checks_reads actions_def delete_file_fails)

lemma session_delete_file_directory_fails:
  assumes "fresh sm w \<or> at_last sm"
    and "drawable w (directory (current_file sm))"
    and "stdin w = ''D'' # ts"
    and "shutil_rmtree (fs w) (undeletable w) (unreadable w) (directory (current_file sm))
           = (Inl e, fsys)"
  shows "call (Suc (Suc (Suc d))) Transition sm w =
           (Inl e, sm, (read_token (current_file sm) ''D'' ts w)\<lparr>fs := fsys\<rparr>)"
  using assms
  by (simp add: transition_promptable after_checks_reads actions_def
        delete_file_directory_fails)

lemmas ex_defs = ex_a_def ex_b_def ex_fs_def ex_world_def ex_session_def ex_gone_world_def
  ex_single_def ex_fresh_world_def ex_hidden_world_def ex_tree_world_def
  ex_locked_world_def ex_closed_world_def ex_shut_world_def ex_f1_def ex_f2_def ex_f3_def ex_ranked_world_def

lemma reprompt_help_fresh:
  assumes "fresh sm w"
    and "drawable w (directory (current_file sm))"
    and "stdin w = ''?'' # ts"
  shows "call (Suc (Suc d)) Transition sm w =
         call d Transition sm
           (w\<lparr>stdin := ts,
              stdout := stdout w @ render_events (current_file sm) @ [InputRead ''?'', HelpLegend]\<rparr>)"
  using assms
  by (simp add: call_Suc(1,7) transition_fresh after_checks_reads actions_def
        print_help_body_def read_token_def)

lemma call_ignore_prefix:
  "prefix (directories_to_ignore w) (directories_to_ignore (snd (snd (call d m sm w))))"
proof -
  obtain r sm' w' where out: "call d m sm w = (r, sm', w')"
    by (cases "call d m sm w") auto
  have "frame sm w (r, sm', w')" using call_frame [of sm w d m] out by simp
  with out show ?thesis by (simp add: frame_def changes_def)
qed

lemma skip_directory_adds:
  "directory (current_file sm) \<in>
     set (directories_to_ignore (snd (snd (call (Suc d) Skip_directory sm w))))"
proof -
  let ?w1 = "w\<lparr>directories_to_ignore := directories_to_ignore w @ [directory (current_file sm)]\<rparr>"
  have "prefix (directories_to_ignore ?w1)
          (directories_to_ignore (snd (snd (call d Advance sm ?w1))))"
    by (rule call_ignore_prefix)
  then have "set (directories_to_ignore ?w1) \<subseteq>
               set (directories_to_ignore (snd (snd (call d Advance sm ?w1))))"
    by (rule set_mono_prefix)
  then show ?thesis by (auto simp: call_Suc(6) skip_directory_body_def)
qed

subsection \<open>The scan\<close>


lemma File_init_appends:
  "File_init p n a w = (Inr f, w') \<Longrightarrow> w' = w\<lparr>File_files := File_files w @ [f]\<rparr>"
  by (auto simp: File_init_def Let_def split: sum.splits)

lemma File_init_fails:
  "File_init p n a w = (Inl e, w') \<Longrightarrow> w' = w"
  by (auto simp: File_init_def Let_def split: sum.splits)

lemma File_init_path: "File_init p n a w = (Inr f, w') \<Longrightarrow> path f = p"
  by (auto simp: File_init_def Let_def split: sum.splits)

lemma scan_loop_extends:
  "\<exists>new. snd (scan_loop ps w) = w\<lparr>File_files := File_files w @ new\<rparr> \<and>
         (\<forall>f \<in> set new. \<not> os_path_isdir (fs w) (path f) \<and> path f \<in> set ps)"
proof (induction ps arbitrary: w)
  case Nil
  have "w = w\<lparr>File_files := File_files w @ []\<rparr>" by simp
  then show ?case by (auto intro: exI [of _ "[]"])
next
  case (Cons p ps)
  have stop: ?case if "snd (scan_loop (p # ps) w) = w"
  proof -
    from that have "snd (scan_loop (p # ps) w) = w\<lparr>File_files := File_files w @ []\<rparr>" by simp
    then show ?thesis by (intro exI [of _ "[]"]) simp
  qed
  show ?case
  proof (cases "os_path_isdir (fs w) p")
    case True
    obtain new where "snd (scan_loop ps w) = w\<lparr>File_files := File_files w @ new\<rparr>"
      and "\<forall>f \<in> set new. \<not> os_path_isdir (fs w) (path f) \<and> path f \<in> set ps"
      using Cons.IH [of w] by blast
    with True show ?thesis by (intro exI [of _ new]) simp
  next
    case False
    show ?thesis
    proof (cases "os_path_getsize (fs w) p")
      case (Inl e)
      with False show ?thesis by (intro stop) simp
    next
      case size: (Inr n)
      show ?thesis
      proof (cases "os_stat_st_ctime (fs w) p")
        case (Inl e)
        with False size show ?thesis by (intro stop) simp
      next
        case ctime: (Inr t)
        obtain r w1 where fi: "File_init p n ((now w - t) div microseconds_per_day) w = (r, w1)"
          by (cases "File_init p n ((now w - t) div microseconds_per_day) w") auto
        show ?thesis
        proof (cases r)
          case (Inl e)
          with fi have "w1 = w" by (auto dest: File_init_fails)
          with False size ctime fi Inl show ?thesis by (intro stop) simp
        next
          case (Inr g)
          with fi have w1: "w1 = w\<lparr>File_files := File_files w @ [g]\<rparr>"
            by (auto dest: File_init_appends)
          from fi Inr have g: "path g = p" by (auto dest: File_init_path)
          obtain new where new: "snd (scan_loop ps w1) = w1\<lparr>File_files := File_files w1 @ new\<rparr>"
            and nd: "\<forall>f \<in> set new. \<not> os_path_isdir (fs w1) (path f) \<and> path f \<in> set ps"
            using Cons.IH [of w1] by blast
          from False size ctime fi Inr w1 new
          have "snd (scan_loop (p # ps) w) = w\<lparr>File_files := File_files w @ (g # new)\<rparr>"
            by simp
          moreover have "\<forall>f \<in> set (g # new). \<not> os_path_isdir (fs w) (path f) \<and> path f \<in> set (p # ps)"
            using nd w1 g False by auto
          ultimately show ?thesis by blast
        qed
      qed
    qed
  qed
qed

lemma scan_loop_prefix: "prefix (File_files w) (File_files (snd (scan_loop ps w)))"
proof -
  obtain new where "snd (scan_loop ps w) = w\<lparr>File_files := File_files w @ new\<rparr>"
    using scan_loop_extends by blast
  then show ?thesis by simp
qed




lemma glob_glob_no_dir:
  "plain_root d \<Longrightarrow> \<not> os_path_isdir fsys d \<Longrightarrow> glob_glob fsys unr d = Some []"
  by (simp add: glob_glob_def)

lemma glob_glob_unreadable:
  assumes "plain_root d" and "d \<in> set unr"
  shows "glob_glob fsys unr d = Some []"
proof -
  have "\<not> (visible_below d q \<and> reachable unr d q)" for q
    using assms(2) by (auto simp: visible_below_def reachable_def list_all_iff)
  then have "filter (\<lambda>(q, e). visible_below d q \<and> reachable unr d q) fsys = []"
    by (simp add: filter_empty_conv case_prod_unfold)
  with assms(1) show ?thesis by (simp add: glob_glob_def)
qed

lemma scan_nothing:
  assumes "plain_root d" and "\<not> os_path_isdir (fs w) d \<or> d \<in> set (unreadable w)"
  shows "scan d w = Some (Inr (), w)"
proof -
  have "glob_glob (fs w) (unreadable w) d = Some []"
    using assms by (auto simp: glob_glob_no_dir glob_glob_unreadable)
  then show ?thesis by (simp add: scan_def)
qed





lemma files_by_size_sorted:
  "sorted_wrt (\<lambda>a b. size_in_bytes a \<le> size_in_bytes b) (files_by_size w)"
  using sorted_sort_key [of size_in_bytes "File_files w"]
  by (simp add: files_by_size_def sorted_py_def sorted_map)

lemma files_by_age_sorted:
  "sorted_wrt (\<lambda>a b. age_in_days a \<ge> age_in_days b) (files_by_age w)"
proof -
  have "sorted (map age_in_days (sort_key age_in_days (rev (File_files w))))"
    by (rule sorted_sort_key)
  then have "sorted_wrt (\<lambda>a b. age_in_days a \<le> age_in_days b)
               (sort_key age_in_days (rev (File_files w)))"
    by (simp add: sorted_map)
  then show ?thesis by (simp add: files_by_age_def sorted_py_def sorted_wrt_rev)
qed

lemma files_by_size_stable:
  "filter (\<lambda>f. size_in_bytes f = k) (files_by_size w) =
     filter (\<lambda>f. size_in_bytes f = k) (File_files w)"
  by (simp add: files_by_size_def sorted_py_def sort_key_stable)

lemma files_by_age_stable:
  "filter (\<lambda>f. age_in_days f = k) (files_by_age w) =
     filter (\<lambda>f. age_in_days f = k) (File_files w)"
proof -
  have "filter (\<lambda>f. age_in_days f = k) (sort_key age_in_days (rev (File_files w))) =
        filter (\<lambda>f. age_in_days f = k) (rev (File_files w))"
    by (rule sort_key_stable)
  then show ?thesis by (simp add: files_by_age_def sorted_py_def rev_filter [symmetric])
qed

lemma files_by_size_mset: "mset (files_by_size w) = mset (File_files w)"
  by (simp add: files_by_size_def sorted_py_def)

lemma files_by_age_mset: "mset (files_by_age w) = mset (File_files w)"
  by (simp add: files_by_age_def sorted_py_def)

section \<open>The claims\<close>

subsection \<open>C1: a stale record is never prompted for\<close>

text \<open>
  Claim C1: whenever the cursor lands on a stale record (its path no longer exists, or its
  directory is in the list of ignored directories), the session advances past it without
  drawing its tree and without reading input for it.

  The code does not do this. In \<open>transition\<close> the call \<^verbatim>\<open>self.advance()\<close> under each
  check is not followed by a \<^verbatim>\<open>return\<close>, so when it returns the method goes on to
  \<^verbatim>\<open>self.prompt()\<close>. For the two files of \<open>ex_session\<close>, both in \<^verbatim>\<open>/x\<close>, and the
  input lines \<^verbatim>\<open>S\<close>, \<^verbatim>\<open>s\<close>: the first line puts \<^verbatim>\<open>/x\<close> on the list; the cursor moves
  to the second file, whose directory is now ignored; \<open>advance\<close> finds no further record
  and returns; the tree of the second file is drawn and the line \<^verbatim>\<open>s\<close> is read for it.
\<close>

theorem C1_stale_record_is_prompted:
  "transition 6 ex_session (ex_world [''S'', ''s'']) =
     (Inr (), ex_session\<lparr>current_file := ex_b\<rparr>,
      (ex_world [])\<lparr>directories_to_ignore := [''/x''],
                    stdout := render_events ex_a @ [InputRead ''S''] @
                              render_events ex_b @ [InputRead ''s'']\<rparr>)"
  by code_simp

subsection \<open>C2: the two orderings\<close>

text \<open>
  Claim C2: for every catalog, ordering by size returns the records in non-decreasing
  order of \<^verbatim>\<open>size_in_bytes\<close> and ordering by age returns them in non-increasing order of
  \<^verbatim>\<open>age_in_days\<close>; both orderings are stable: records with equal sort key keep their
  relative order of construction. Both return exactly the records of \<^verbatim>\<open>File.files\<close>.
\<close>

theorem C2_orderings_sorted_and_stable:
  "sorted_wrt (\<lambda>a b. size_in_bytes a \<le> size_in_bytes b) (files_by_size w) \<and>
   sorted_wrt (\<lambda>a b. age_in_days a \<ge> age_in_days b) (files_by_age w) \<and>
   filter (\<lambda>f. size_in_bytes f = k) (files_by_size w) =
     filter (\<lambda>f. size_in_bytes f = k) (File_files w) \<and>
   filter (\<lambda>f. age_in_days f = k) (files_by_age w) =
     filter (\<lambda>f. age_in_days f = k) (File_files w) \<and>
   mset (files_by_size w) = mset (File_files w) \<and>
   mset (files_by_age w) = mset (File_files w)"
proof -
  let ?xs = "File_files w"
  have size_sorted: "sorted_wrt (\<lambda>a b. size_in_bytes a \<le> size_in_bytes b) (files_by_size w)"
    using sorted_sort_key [of size_in_bytes ?xs]
    by (simp add: files_by_size_def sorted_py_def sorted_map)
  have "sorted (map age_in_days (sort_key age_in_days (rev ?xs)))"
    by (rule sorted_sort_key)
  then have "sorted_wrt (\<lambda>a b. age_in_days a \<le> age_in_days b) (sort_key age_in_days (rev ?xs))"
    by (simp add: sorted_map)
  then have age_sorted: "sorted_wrt (\<lambda>a b. age_in_days a \<ge> age_in_days b) (files_by_age w)"
    by (simp add: files_by_age_def sorted_py_def sorted_wrt_rev)
  have size_stable: "filter (\<lambda>f. size_in_bytes f = k) (files_by_size w) =
     filter (\<lambda>f. size_in_bytes f = k) ?xs"
    by (simp add: files_by_size_def sorted_py_def sort_key_stable)
  have "filter (\<lambda>f. age_in_days f = k) (sort_key age_in_days (rev ?xs)) =
        filter (\<lambda>f. age_in_days f = k) (rev ?xs)"
    by (rule sort_key_stable)
  then have age_stable: "filter (\<lambda>f. age_in_days f = k) (files_by_age w) =
     filter (\<lambda>f. age_in_days f = k) ?xs"
    by (simp add: files_by_age_def sorted_py_def rev_filter [symmetric])
  have m1: "mset (files_by_size w) = mset ?xs"
    by (simp add: files_by_size_def sorted_py_def)
  have m2: "mset (files_by_age w) = mset ?xs"
    by (simp add: files_by_age_def sorted_py_def)
  from size_sorted age_sorted size_stable age_stable m1 m2 show ?thesis by blast
qed

subsection \<open>C3: a failed deletion\<close>

text \<open>
  Claim C3: when the action \<^verbatim>\<open>d\<close> or \<^verbatim>\<open>D\<close> fails in the file system, the failure is
  caught, reported as a non-fatal error, and the session advances past the record.

  Counterexample: the operating system refuses to remove \<^verbatim>\<open>/x/a\<close>, the first of the two
  files of \<open>ex_session\<close>. The record is prompted, the line \<^verbatim>\<open>d\<close> is read,
  \<^verbatim>\<open>os.remove\<close> raises \<^verbatim>\<open>PermissionError\<close>, and the session ends with that exception:
  nothing is printed after the line was read, the cursor is still on the first record,
  the second record is never shown and the line \<^verbatim>\<open>s\<close> is never read.
\<close>

theorem C3_deletion_failure_counterexample:
  "transition 1000 ex_session (ex_locked_world [''/x/a''] [''d'', ''s'']) =
     (Inl PermissionError, ex_session,
      (ex_locked_world [''/x/a''] [''s''])\<lparr>stdout := render_events ex_a @ [InputRead ''d'']\<rparr>)"
  by code_simp

text \<open>
  Claim C3 as amended: no deletion failure is caught. When \<^verbatim>\<open>os.remove\<close> or
  \<^verbatim>\<open>shutil.rmtree\<close> raises for the current record, the handler of \<^verbatim>\<open>d\<close> or \<^verbatim>\<open>D\<close>
  ends with the same exception, prints nothing and does not advance; and the session
  that has read \<^verbatim>\<open>d\<close> or \<^verbatim>\<open>D\<close> for the record ends with that exception right after
  reading the line. The process state is left as it was, except that what \<^verbatim>\<open>rmtree\<close>
  had removed before it failed stays removed.
\<close>

theorem C3_deletion_failure_propagates:
  "(os_remove (fs w) (undeletable w) (path (current_file sm)) = Inl e \<longrightarrow>
      call (Suc d) Delete_file sm w = (Inl e, sm, w)) \<and>
   (shutil_rmtree (fs w) (undeletable w) (unreadable w) (directory (current_file sm))
      = (Inl e, fsys) \<longrightarrow>
      call (Suc d) Delete_file_directory sm w = (Inl e, sm, w\<lparr>fs := fsys\<rparr>)) \<and>
   ((fresh sm w \<or> at_last sm) \<and> drawable w (directory (current_file sm)) \<and>
    stdin w = ''d'' # ts \<and>
    os_remove (fs w) (undeletable w) (path (current_file sm)) = Inl e \<longrightarrow>
      transition (Suc (Suc (Suc d))) sm w =
        (Inl e, sm, read_token (current_file sm) ''d'' ts w)) \<and>
   ((fresh sm w \<or> at_last sm) \<and> drawable w (directory (current_file sm)) \<and>
    stdin w = ''D'' # ts \<and>
    shutil_rmtree (fs w) (undeletable w) (unreadable w) (directory (current_file sm))
      = (Inl e, fsys) \<longrightarrow>
      transition (Suc (Suc (Suc d))) sm w =
        (Inl e, sm, (read_token (current_file sm) ''D'' ts w)\<lparr>fs := fsys\<rparr>))"
  by (simp add: transition_def delete_file_fails delete_file_directory_fails
        session_delete_file_fails session_delete_file_directory_fails)

theorem C3_deletion_failure_propagates_witness:
  "fresh ex_session (ex_locked_world [''/x/b''] [''D'', ''s'']) \<and>
   drawable (ex_locked_world [''/x/b''] [''D'', ''s'']) (directory (current_file ex_session)) \<and>
   shutil_rmtree ex_fs [''/x/b''] [] ''/x'' =
     (Inl PermissionError, [(''/x'', Directory), (''/x/b'', RegularFile 10 0)]) \<and>
   call 1 Delete_file_directory ex_session (ex_locked_world [''/x/b''] [''D'', ''s'']) =
     (Inl PermissionError, ex_session,
      (ex_locked_world [''/x/b''] [''D'', ''s''])
        \<lparr>fs := [(''/x'', Directory), (''/x/b'', RegularFile 10 0)]\<rparr>) \<and>
   transition 3 ex_session (ex_locked_world [''/x/b''] [''D'', ''s'']) =
     (Inl PermissionError, ex_session,
      (read_token ex_a ''D'' [''s''] (ex_locked_world [''/x/b''] [''D'', ''s'']))
        \<lparr>fs := [(''/x'', Directory), (''/x/b'', RegularFile 10 0)]\<rparr>) \<and>
   fresh ex_session (ex_locked_world [''/x/a''] [''d'', ''s'']) \<and>
   os_remove ex_fs [''/x/a''] ''/x/a'' = Inl PermissionError \<and>
   call 1 Delete_file ex_session (ex_locked_world [''/x/a''] [''d'', ''s'']) =
     (Inl PermissionError, ex_session, ex_locked_world [''/x/a''] [''d'', ''s'']) \<and>
   transition 3 ex_session (ex_locked_world [''/x/a''] [''d'', ''s'']) =
     (Inl PermissionError, ex_session,
      read_token ex_a ''d'' [''s''] (ex_locked_world [''/x/a''] [''d'', ''s'']))"
proof -
  let ?wD = "ex_locked_world [''/x/b''] [''D'', ''s'']"
  let ?wd = "ex_locked_world [''/x/a''] [''d'', ''s'']"
  let ?left = "[(''/x'', Directory), (''/x/b'', RegularFile 10 0)]"
  have fr: "fresh ex_session (ex_locked_world und inp)" for und inp
    by (simp add: fresh_def ex_defs os_path_exists_def)
  have dr: "drawable (ex_locked_world und inp) (directory (current_file ex_session))" for und inp
    by (simp add: drawable_def blocked_def ex_defs os_path_isdir_def)
  have cf: "current_file ex_session = ex_a"
    by (simp add: ex_defs)
  have rt: "shutil_rmtree ex_fs [''/x/b''] [] ''/x'' = (Inl PermissionError, ?left)"
    by code_simp
  have rm: "os_remove ex_fs [''/x/a''] ''/x/a'' = Inl PermissionError"
    by code_simp
  have rtD: "shutil_rmtree (fs ?wD) (undeletable ?wD) (unreadable ?wD)
               (directory (current_file ex_session)) = (Inl PermissionError, ?left)"
    using rt by (simp add: ex_defs)
  have rmd: "os_remove (fs ?wd) (undeletable ?wd) (path (current_file ex_session))
               = Inl PermissionError"
    using rm by (simp add: ex_defs)
  have inD: "stdin ?wD = ''D'' # [''s'']" by (simp add: ex_defs)
  have ind: "stdin ?wd = ''d'' # [''s'']" by (simp add: ex_defs)
  note tD = C3_deletion_failure_propagates
    [of ?wD ex_session PermissionError 0 ?left "[''s'']"]
  note td = C3_deletion_failure_propagates
    [of ?wd ex_session PermissionError 0 _ "[''s'']"]
  have c1: "call 1 Delete_file_directory ex_session ?wD =
              (Inl PermissionError, ex_session, ?wD\<lparr>fs := ?left\<rparr>)"
    using tD [THEN conjunct2, THEN conjunct1] rtD by simp
  have c2: "transition 3 ex_session ?wD =
              (Inl PermissionError, ex_session, (read_token ex_a ''D'' [''s''] ?wD)\<lparr>fs := ?left\<rparr>)"
    using tD [THEN conjunct2, THEN conjunct2, THEN conjunct2] fr [of "[''/x/b'']"] dr inD rtD
    by (simp add: numeral_3_eq_3 cf)
  have c3: "call 1 Delete_file ex_session ?wd = (Inl PermissionError, ex_session, ?wd)"
    using td [THEN conjunct1] rmd by simp
  have c4: "transition 3 ex_session ?wd =
              (Inl PermissionError, ex_session, read_token ex_a ''d'' [''s''] ?wd)"
    using td [THEN conjunct2, THEN conjunct2, THEN conjunct1] fr [of "[''/x/a'']"] dr ind rmd
    by (simp add: numeral_3_eq_3 cf)
  from fr [of "[''/x/b'']" "[''D'', ''s'']"] dr [of "[''/x/b'']" "[''D'', ''s'']"] rt c1 c2
    fr [of "[''/x/a'']" "[''d'', ''s'']"] rm c3 c4
  show ?thesis by (simp only: simp_thms)
qed

subsection \<open>C4: constructing a session\<close>

text \<open>
  Claim C4: constructing a session over an empty catalog fails with
  \<^verbatim>\<open>EmptyCatalogError\<close>; over a non-empty catalog it succeeds with the cursor on the
  record at index 0.

  Counterexample: the constructor has no check of its own; on the empty list the
  subscript \<^verbatim>\<open>files[0]\<close> raises \<^verbatim>\<open>IndexError\<close>.
\<close>

theorem C4_empty_catalog_counterexample:
  "fst (StateMachine_init [] (ex_world [])) = Inl IndexError \<and>
   fst (StateMachine_init [] (ex_world [])) \<noteq> Inl EmptyCatalogError"
  by (simp add: StateMachine_init_def)

text \<open>
  Claim C4 as amended: constructing a session over an empty catalog fails with
  \<^verbatim>\<open>IndexError\<close>; over every non-empty catalog it succeeds, the current record is the
  one at index 0 and the cursor computed by \<open>advance\<close> is 0.
\<close>

theorem C4_constructor:
  "StateMachine_init [] w = (Inl IndexError, w) \<and>
   (fls \<noteq> [] \<longrightarrow>
      StateMachine_init fls w = (Inr \<lparr>files = fls, current_file = fls ! 0\<rparr>, w) \<and>
      list_index fls (fls ! 0) = Inr 0)"
  by (cases fls) (simp_all add: StateMachine_init_def)

theorem C4_constructor_witness:
  "[ex_a, ex_b] \<noteq> [] \<and>
   StateMachine_init [ex_a, ex_b] (ex_world []) = (Inr ex_session, ex_world []) \<and>
   list_index [ex_a, ex_b] ex_a = Inr 0"
  using C4_constructor [of "ex_world []" "[ex_a, ex_b]"]
  by (simp add: ex_session_def)

subsection \<open>C5: a root that cannot be scanned\<close>

text \<open>
  Claim C5: for every root that does not exist or is not readable the scan fails with
  \<^verbatim>\<open>ScanError\<close> before any session starts; it never silently produces an empty or
  partial catalog.

  Counterexample: \<^verbatim>\<open>/missing\<close> does not exist. \<^verbatim>\<open>glob\<close> returns the empty list, the
  loop of \<^verbatim>\<open>main\<close> runs zero times and raises nothing, the catalog is empty, and the
  run ends at the construction of the session with \<^verbatim>\<open>IndexError\<close>.
\<close>

theorem C5_missing_root_counterexample:
  "scan ''/missing'' ex_fresh_world = Some (Inr (), ex_fresh_world) \<and>
   scan ''/missing'' ex_fresh_world \<noteq> Some (Inl ScanError, ex_fresh_world) \<and>
   files_by_size ex_fresh_world = [] \<and>
   main 1000 ''/missing'' ''size'' ex_fresh_world = Some (Inl IndexError, ex_fresh_world)"
  by code_simp

text \<open>
  Claim C5 as amended: for every root, given as an absolute normalised path without
  wildcard characters, that does not exist, is not a directory or cannot be listed, the
  scan raises nothing and constructs no record, so the catalog is \<^verbatim>\<open>File.files\<close> as it
  was; in a process that has constructed no \<^verbatim>\<open>File\<close> before, \<^verbatim>\<open>main\<close> then ends with
  the \<^verbatim>\<open>IndexError\<close> of the session constructor.
\<close>

theorem C5_unscannable_root_gives_empty_scan:
  "plain_root d \<and> (\<not> os_path_isdir (fs w) d \<or> d \<in> set (unreadable w)) \<longrightarrow>
     scan d w = Some (Inr (), w) \<and>
     (File_files w = [] \<and> (order_by = ''age'' \<or> order_by = ''size'') \<longrightarrow>
        main depth d order_by w = Some (Inl IndexError, w))"
proof (intro impI conjI)
  assume h: "plain_root d \<and> (\<not> os_path_isdir (fs w) d \<or> d \<in> set (unreadable w))"
  then show sc: "scan d w = Some (Inr (), w)"
    by (intro scan_nothing) simp_all
  assume "File_files w = [] \<and> (order_by = ''age'' \<or> order_by = ''size'')"
  with sc show "main depth d order_by w = Some (Inl IndexError, w)"
    by (auto simp: main_def files_by_age_def files_by_size_def sorted_py_def
          StateMachine_init_def)
qed

theorem C5_unscannable_root_gives_empty_scan_witness:
  "plain_root ''/missing'' \<and>
   \<not> os_path_isdir (fs ex_fresh_world) ''/missing'' \<and>
   scan ''/missing'' ex_fresh_world = Some (Inr (), ex_fresh_world) \<and>
   File_files ex_fresh_world = [] \<and>
   main 1000 ''/missing'' ''age'' ex_fresh_world = Some (Inl IndexError, ex_fresh_world) \<and>
   plain_root ''/r'' \<and>
   os_path_isdir (fs ex_shut_world) ''/r'' \<and>
   ''/r'' \<in> set (unreadable ex_shut_world) \<and>
   scan ''/r'' ex_shut_world = Some (Inr (), ex_shut_world) \<and>
   File_files ex_shut_world = [] \<and>
   main 1000 ''/r'' ''size'' ex_shut_world = Some (Inl IndexError, ex_shut_world)"
proof -
  have p1: "plain_root ''/missing''" by code_simp
  have p2: "plain_root ''/r''" by code_simp
  have h1: "\<not> os_path_isdir (fs ex_fresh_world) ''/missing''"
    by (simp add: os_path_isdir_def ex_defs)
  have h2: "File_files ex_fresh_world = []"
    by (simp add: ex_defs)
  have h3: "os_path_isdir (fs ex_shut_world) ''/r''"
    by (simp add: os_path_isdir_def ex_defs)
  have h4: "''/r'' \<in> set (unreadable ex_shut_world)"
    by (simp add: ex_defs)
  have h5: "File_files ex_shut_world = []"
    by (simp add: ex_defs)
  note t1 = C5_unscannable_root_gives_empty_scan
    [of "''/missing''" ex_fresh_world "''age''" 1000, rule_format]
  note t2 = C5_unscannable_root_gives_empty_scan
    [of "''/r''" ex_shut_world "''size''" 1000, rule_format]
  have a1: "plain_root ''/missing'' \<and>
            (\<not> os_path_isdir (fs ex_fresh_world) ''/missing'' \<or>
             ''/missing'' \<in> set (unreadable ex_fresh_world))"
    using p1 h1 by simp
  have a2: "plain_root ''/r'' \<and>
            (\<not> os_path_isdir (fs ex_shut_world) ''/r'' \<or> ''/r'' \<in> set (unreadable ex_shut_world))"
    using p2 h4 by simp
  have c1: "scan ''/missing'' ex_fresh_world = Some (Inr (), ex_fresh_world)"
    using t1 [OF a1] by simp
  have c2: "main 1000 ''/missing'' ''age'' ex_fresh_world = Some (Inl IndexError, ex_fresh_world)"
    using t1 [OF a1] h2 by simp
  have c3: "scan ''/r'' ex_shut_world = Some (Inr (), ex_shut_world)"
    using t2 [OF a2] by simp
  have c4: "main 1000 ''/r'' ''size'' ex_shut_world = Some (Inl IndexError, ex_shut_world)"
    using t2 [OF a2] h5 by simp
  from p1 h1 c1 h2 c2 p2 h3 h4 c3 h5 c4 show ?thesis by (simp only: simp_thms)
qed

subsection \<open>C6: the help line and unknown lines\<close>




subsection \<open>C7: the call stack\<close>

text \<open>
  Claim C7: the prompt/advance control flow is an iterative loop: for every catalog and
  every sequence of help or unknown lines, processing the session does not grow the call
  stack in proportion to the number of re-prompts or of records processed.

  Counterexample: with 1000 call frames for its methods, the session over the two files
  of \<open>ex_session\<close> ends normally on the input \<^verbatim>\<open>s\<close>, \<^verbatim>\<open>s\<close>, and ends with
  \<^verbatim>\<open>RecursionError\<close> on 1000 unknown lines \<^verbatim>\<open>x\<close>.
\<close>

theorem C7_call_depth_counterexample:
  "fst (transition 1000 ex_session (ex_world [''s'', ''s''])) = Inr () \<and>
   fst (transition 1000 ex_session (ex_world (replicate 1000 ''x''))) = Inl RecursionError"
proof -
  have a: "fst (transition 1000 ex_session (ex_world [''s'', ''s''])) = Inr ()"
    by code_simp
  have "call (1000 + 0) Transition ex_session (ex_world (replicate 1000 ''x'' @ [])) =
        call 0 Transition ex_session
          ((ex_world (replicate 1000 ''x'' @ []))\<lparr>stdin := [],
             stdout := stdout (ex_world (replicate 1000 ''x'' @ [])) @
                concat (replicate 1000 (render_events (current_file ex_session) @ [InputRead ''x'']))\<rparr>)"
    by (rule reprompt_many)
       (simp_all add: ex_defs fresh_def drawable_def blocked_def os_path_isdir_def
          os_path_exists_def actions_def)
  then have b: "fst (transition 1000 ex_session (ex_world (replicate 1000 ''x''))) = Inl RecursionError"
    by (simp add: transition_def)
  from a b show ?thesis by (rule conjI)
qed

text \<open>
  Claim C7 as amended: the control flow is recursive. For a fresh current record whose
  tree can be drawn, what the session does after a line has been read is a nested call
  that runs with fewer call frames than the call that read the line: one fewer after an
  unknown line, two fewer after the help line, and three fewer after a move to the next
  record by \<^verbatim>\<open>s\<close>, by \<^verbatim>\<open>S\<close>, or by a \<^verbatim>\<open>d\<close> or \<^verbatim>\<open>D\<close> whose deletion succeeds. So
  the depth of the call stack grows with the number of re-prompts and of records passed in
  this way: \<open>n\<close> unknown lines turn a session with \<open>n + k\<close> frames into one with \<open>k\<close>
  frames, and they exhaust a stack of \<open>n\<close> frames. (Frames are those of the session's
  own methods; \<open>prompt\<close> and the deletions are taken to have room for their calls.)
\<close>

theorem C7_frames_grow_with_input:
  assumes "fresh sm w" and "drawable w (directory (current_file sm))"
  shows
  "(actions t = None \<and> stdin w = replicate n t @ rest \<longrightarrow>
      transition (n + k) sm w =
        transition k sm
          (w\<lparr>stdin := rest,
             stdout := stdout w @
               concat (replicate n (render_events (current_file sm) @ [InputRead t]))\<rparr>) \<and>
      fst (transition n sm w) = Inl RecursionError) \<and>
   (stdin w = ''?'' # ts \<longrightarrow>
      transition (k + 2) sm w =
        transition k sm
          (w\<lparr>stdin := ts,
             stdout := stdout w @ render_events (current_file sm) @
                       [InputRead ''?'', HelpLegend]\<rparr>)) \<and>
   (list_index (files sm) (current_file sm) = Inr i \<and> Suc i < length (files sm) \<longrightarrow>
      (stdin w = ''s'' # ts \<longrightarrow>
         transition (k + 3) sm w =
           transition k (sm\<lparr>current_file := files sm ! Suc i\<rparr>)
             (read_token (current_file sm) ''s'' ts w)) \<and>
      (stdin w = ''S'' # ts \<longrightarrow>
         transition (k + 3) sm w =
           transition k (sm\<lparr>current_file := files sm ! Suc i\<rparr>)
             ((read_token (current_file sm) ''S'' ts w)
                \<lparr>directories_to_ignore :=
                   directories_to_ignore w @ [directory (current_file sm)]\<rparr>)) \<and>
      (stdin w = ''d'' # ts \<and>
       os_remove (fs w) (undeletable w) (path (current_file sm)) = Inr fsys \<longrightarrow>
         transition (k + 3) sm w =
           transition k (sm\<lparr>current_file := files sm ! Suc i\<rparr>)
             ((read_token (current_file sm) ''d'' ts w)\<lparr>fs := fsys\<rparr>)) \<and>
      (stdin w = ''D'' # ts \<and>
       shutil_rmtree (fs w) (undeletable w) (unreadable w) (directory (current_file sm))
         = (Inr (), fsys) \<longrightarrow>
         transition (k + 3) sm w =
           transition k (sm\<lparr>current_file := files sm ! Suc i\<rparr>)
             ((read_token (current_file sm) ''D'' ts w)\<lparr>fs := fsys\<rparr>)))"
proof (intro conjI impI)
  assume h: "actions t = None \<and> stdin w = replicate n t @ rest"
  have many: "call (n + j) Transition sm w =
      call j Transition sm
        (w\<lparr>stdin := rest,
           stdout := stdout w @
             concat (replicate n (render_events (current_file sm) @ [InputRead t]))\<rparr>)" for j
    using assms h by (intro reprompt_many) simp_all
  from many [of k] show "transition (n + k) sm w =
        transition k sm
          (w\<lparr>stdin := rest,
             stdout := stdout w @
               concat (replicate n (render_events (current_file sm) @ [InputRead t]))\<rparr>)"
    by (simp add: transition_def)
  from many [of 0] show "fst (transition n sm w) = Inl RecursionError"
    by (simp add: transition_def)
next
  assume "stdin w = ''?'' # ts"
  with assms show "transition (k + 2) sm w =
        transition k sm
          (w\<lparr>stdin := ts,
             stdout := stdout w @ render_events (current_file sm) @
                       [InputRead ''?'', HelpLegend]\<rparr>)"
    by (simp add: transition_def reprompt_help_fresh)
next
  assume "list_index (files sm) (current_file sm) = Inr i \<and> Suc i < length (files sm)"
    and "stdin w = ''s'' # ts"
  with assms show "transition (k + 3) sm w =
        transition k (sm\<lparr>current_file := files sm ! Suc i\<rparr>)
          (read_token (current_file sm) ''s'' ts w)"
    by (simp add: transition_def skip_step numeral_3_eq_3)
next
  assume "list_index (files sm) (current_file sm) = Inr i \<and> Suc i < length (files sm)"
    and "stdin w = ''S'' # ts"
  with assms show "transition (k + 3) sm w =
        transition k (sm\<lparr>current_file := files sm ! Suc i\<rparr>)
          ((read_token (current_file sm) ''S'' ts w)
             \<lparr>directories_to_ignore :=
                directories_to_ignore w @ [directory (current_file sm)]\<rparr>)"
    by (simp add: transition_def skip_directory_step numeral_3_eq_3)
next
  assume "list_index (files sm) (current_file sm) = Inr i \<and> Suc i < length (files sm)"
    and "stdin w = ''d'' # ts \<and>
         os_remove (fs w) (undeletable w) (path (current_file sm)) = Inr fsys"
  with assms show "transition (k + 3) sm w =
        transition k (sm\<lparr>current_file := files sm ! Suc i\<rparr>)
          ((read_token (current_file sm) ''d'' ts w)\<lparr>fs := fsys\<rparr>)"
    by (simp add: transition_def delete_file_step numeral_3_eq_3)
next
  assume "list_index (files sm) (current_file sm) = Inr i \<and> Suc i < length (files sm)"
    and "stdin w = ''D'' # ts \<and>
         shutil_rmtree (fs w) (undeletable w) (unreadable w) (directory (current_file sm))
           = (Inr (), fsys)"
  with assms show "transition (k + 3) sm w =
        transition k (sm\<lparr>current_file := files sm ! Suc i\<rparr>)
          ((read_token (current_file sm) ''D'' ts w)\<lparr>fs := fsys\<rparr>)"
    by (simp add: transition_def delete_file_directory_step numeral_3_eq_3)
qed

theorem C7_frames_grow_with_input_witness:
  "fresh ex_session (ex_world [''x'', ''x'', ''s'']) \<and>
   drawable (ex_world [''x'', ''x'', ''s'']) (directory (current_file ex_session)) \<and>
   actions ''x'' = None \<and>
   transition (2 + 3) ex_session (ex_world [''x'', ''x'', ''s'']) =
     transition 3 ex_session
       ((ex_world [''x'', ''x'', ''s''])\<lparr>stdin := [''s''],
          stdout := stdout (ex_world [''x'', ''x'', ''s'']) @
            concat (replicate 2 (render_events (current_file ex_session) @ [InputRead ''x'']))\<rparr>) \<and>
   fst (transition 2 ex_session (ex_world [''x'', ''x'', ''s''])) = Inl RecursionError \<and>
   transition (1 + 2) ex_session (ex_world [''?'']) =
     transition 1 ex_session
       ((ex_world [''?''])\<lparr>stdin := [],
          stdout := stdout (ex_world [''?'']) @ render_events (current_file ex_session) @
                    [InputRead ''?'', HelpLegend]\<rparr>) \<and>
   list_index (files ex_session) (current_file ex_session) = Inr 0 \<and>
   Suc 0 < length (files ex_session) \<and>
   transition (1 + 3) ex_session (ex_world [''s'']) =
     transition 1 (ex_session\<lparr>current_file := files ex_session ! Suc 0\<rparr>)
       (read_token (current_file ex_session) ''s'' [] (ex_world [''s''])) \<and>
   transition (1 + 3) ex_session (ex_world [''S'']) =
     transition 1 (ex_session\<lparr>current_file := files ex_session ! Suc 0\<rparr>)
       ((read_token (current_file ex_session) ''S'' [] (ex_world [''S'']))
          \<lparr>directories_to_ignore :=
             directories_to_ignore (ex_world [''S'']) @ [directory (current_file ex_session)]\<rparr>) \<and>
   os_remove ex_fs [] ''/x/a'' = Inr [(''/x'', Directory), (''/x/b'', RegularFile 10 0)] \<and>
   transition (1 + 3) ex_session (ex_world [''d'']) =
     transition 1 (ex_session\<lparr>current_file := files ex_session ! Suc 0\<rparr>)
       ((read_token (current_file ex_session) ''d'' [] (ex_world [''d'']))
          \<lparr>fs := [(''/x'', Directory), (''/x/b'', RegularFile 10 0)]\<rparr>) \<and>
   shutil_rmtree ex_fs [] [] ''/x'' = (Inr (), []) \<and>
   transition (1 + 3) ex_session (ex_world [''D'']) =
     transition 1 (ex_session\<lparr>current_file := files ex_session ! Suc 0\<rparr>)
       ((read_token (current_file ex_session) ''D'' [] (ex_world [''D'']))\<lparr>fs := []\<rparr>)"
proof -
  have fr: "fresh ex_session (ex_world inp)" for inp
    by (simp add: fresh_def ex_defs os_path_exists_def)
  have dr: "drawable (ex_world inp) (directory (current_file ex_session))" for inp
    by (simp add: drawable_def blocked_def ex_defs os_path_isdir_def)
  have act: "actions ''x'' = None"
    by (simp add: actions_def)
  have inp: "stdin (ex_world inp) = inp" for inp
    by (simp add: ex_world_def)
  have idx: "list_index (files ex_session) (current_file ex_session) = Inr 0"
    by (simp add: ex_session_def)
  have len: "Suc 0 < length (files ex_session)"
    by (simp add: ex_session_def)
  have r: "[''x'', ''x'', ''s''] = replicate 2 ''x'' @ [''s'']"
    by (simp add: numeral_2_eq_2)
  have rm: "os_remove ex_fs [] ''/x/a'' = Inr [(''/x'', Directory), (''/x/b'', RegularFile 10 0)]"
    by code_simp
  have rt: "shutil_rmtree ex_fs [] [] ''/x'' = (Inr (), [])"
    by code_simp
  have rm': "os_remove (fs (ex_world inp)) (undeletable (ex_world inp)) (path (current_file ex_session))
             = Inr [(''/x'', Directory), (''/x/b'', RegularFile 10 0)]" for inp
    using rm by (simp add: ex_defs)
  have rt': "shutil_rmtree (fs (ex_world inp)) (undeletable (ex_world inp)) (unreadable (ex_world inp))
               (directory (current_file ex_session)) = (Inr (), [])" for inp
    using rt by (simp add: ex_defs)
  note t1 = C7_frames_grow_with_input
    [where sm = ex_session and w = "ex_world [''x'', ''x'', ''s'']" and t = "''x''" and n = 2
       and rest = "[''s'']" and k = 3, OF fr dr, THEN conjunct1, rule_format]
  note t2 = C7_frames_grow_with_input
    [where sm = ex_session and w = "ex_world [''?'']" and k = 1 and ts = "[]",
     OF fr dr, THEN conjunct2, THEN conjunct1, rule_format]
  have t3: "list_index (files ex_session) (current_file ex_session) = Inr 0 \<and>
      Suc 0 < length (files ex_session) \<Longrightarrow>
      (stdin (ex_world inp) = ''s'' # [] \<longrightarrow>
         transition (1 + 3) ex_session (ex_world inp) =
           transition 1 (ex_session\<lparr>current_file := files ex_session ! Suc 0\<rparr>)
             (read_token (current_file ex_session) ''s'' [] (ex_world inp))) \<and>
      (stdin (ex_world inp) = ''S'' # [] \<longrightarrow>
         transition (1 + 3) ex_session (ex_world inp) =
           transition 1 (ex_session\<lparr>current_file := files ex_session ! Suc 0\<rparr>)
             ((read_token (current_file ex_session) ''S'' [] (ex_world inp))
                \<lparr>directories_to_ignore :=
                   directories_to_ignore (ex_world inp) @ [directory (current_file ex_session)]\<rparr>)) \<and>
      (stdin (ex_world inp) = ''d'' # [] \<and>
       os_remove (fs (ex_world inp)) (undeletable (ex_world inp)) (path (current_file ex_session))
         = Inr fsys \<longrightarrow>
         transition (1 + 3) ex_session (ex_world inp) =
           transition 1 (ex_session\<lparr>current_file := files ex_session ! Suc 0\<rparr>)
             ((read_token (current_file ex_session) ''d'' [] (ex_world inp))\<lparr>fs := fsys\<rparr>)) \<and>
      (stdin (ex_world inp) = ''D'' # [] \<and>
       shutil_rmtree (fs (ex_world inp)) (undeletable (ex_world inp)) (unreadable (ex_world inp))
         (directory (current_file ex_session)) = (Inr (), fsys) \<longrightarrow>
         transition (1 + 3) ex_session (ex_world inp) =
           transition 1 (ex_session\<lparr>current_file := files ex_session ! Suc 0\<rparr>)
             ((read_token (current_file ex_session) ''D'' [] (ex_world inp))\<lparr>fs := fsys\<rparr>))"
    for inp fsys
    using C7_frames_grow_with_input
      [where sm = ex_session and w = "ex_world inp" and k = 1 and ts = "[]" and i = 0
         and fsys = fsys, OF fr dr, THEN conjunct2, THEN conjunct2]
    by (rule mp)
  have c1: "transition (2 + 3) ex_session (ex_world [''x'', ''x'', ''s'']) =
     transition 3 ex_session
       ((ex_world [''x'', ''x'', ''s''])\<lparr>stdin := [''s''],
          stdout := stdout (ex_world [''x'', ''x'', ''s'']) @
            concat (replicate 2 (render_events (current_file ex_session) @ [InputRead ''x'']))\<rparr>) \<and>
     fst (transition 2 ex_session (ex_world [''x'', ''x'', ''s''])) = Inl RecursionError"
    by (rule t1) (simp only: act inp r simp_thms)
  have c2: "transition (1 + 2) ex_session (ex_world [''?'']) =
     transition 1 ex_session
       ((ex_world [''?''])\<lparr>stdin := [],
          stdout := stdout (ex_world [''?'']) @ render_events (current_file ex_session) @
                    [InputRead ''?'', HelpLegend]\<rparr>)"
    by (rule t2) (simp only: inp)
  have all: "list_index (files ex_session) (current_file ex_session) = Inr 0 \<and>
             Suc 0 < length (files ex_session)"
    using idx len by simp
  have c3: "transition (1 + 3) ex_session (ex_world [''s'']) =
     transition 1 (ex_session\<lparr>current_file := files ex_session ! Suc 0\<rparr>)
       (read_token (current_file ex_session) ''s'' [] (ex_world [''s'']))"
    using t3 [of "[''s'']", OF all, THEN conjunct1] inp by simp
  have c4: "transition (1 + 3) ex_session (ex_world [''S'']) =
     transition 1 (ex_session\<lparr>current_file := files ex_session ! Suc 0\<rparr>)
       ((read_token (current_file ex_session) ''S'' [] (ex_world [''S'']))
          \<lparr>directories_to_ignore :=
             directories_to_ignore (ex_world [''S'']) @ [directory (current_file ex_session)]\<rparr>)"
    using t3 [of "[''S'']", OF all, THEN conjunct2, THEN conjunct1] inp by simp
  have c5: "transition (1 + 3) ex_session (ex_world [''d'']) =
     transition 1 (ex_session\<lparr>current_file := files ex_session ! Suc 0\<rparr>)
       ((read_token (current_file ex_session) ''d'' [] (ex_world [''d'']))
          \<lparr>fs := [(''/x'', Directory), (''/x/b'', RegularFile 10 0)]\<rparr>)"
    using t3 [of "[''d'']" "[(''/x'', Directory), (''/x/b'', RegularFile 10 0)]",
              OF all, THEN conjunct2, THEN conjunct2, THEN conjunct1] inp rm'
    by simp
  have c6: "transition (1 + 3) ex_session (ex_world [''D'']) =
     transition 1 (ex_session\<lparr>current_file := files ex_session ! Suc 0\<rparr>)
       ((read_token (current_file ex_session) ''D'' [] (ex_world [''D'']))\<lparr>fs := []\<rparr>)"
    using t3 [of "[''D'']" "[]",
              OF all, THEN conjunct2, THEN conjunct2, THEN conjunct2] inp rt'
    by simp
  show ?thesis
    using fr [of "[''x'', ''x'', ''s'']"] dr [of "[''x'', ''x'', ''s'']"] act c1 c2 idx len
      c3 c4 rm c5 rt c6
    by (simp only: simp_thms)
qed

subsection \<open>C8: what the scan emits\<close>




subsection \<open>C9: the list of ignored directories\<close>

text \<open>
  Claim C9: the set of ignored directories belongs to one session: during a session it
  only grows, and two sessions created in the same process never see each other's
  ignored directories, a new session starting with the empty set.

  Counterexample: the list is an attribute of the class, and the constructor does not
  reset it. After a first session in which \<^verbatim>\<open>S\<close> was given for a file in \<^verbatim>\<open>/x\<close>, a
  second session constructed in the same process starts with \<^verbatim>\<open>/x\<close> ignored.
\<close>

theorem C9_second_session_counterexample:
  "fst (StateMachine_init [ex_b]
         (snd (snd (transition 1000 ex_session (ex_world [''S'', ''s''])))))
     = Inr \<lparr>files = [ex_b], current_file = ex_b\<rparr> \<and>
   directories_to_ignore
     (snd (StateMachine_init [ex_b]
            (snd (snd (transition 1000 ex_session (ex_world [''S'', ''s'']))))))
     = [''/x'']"
  by code_simp

text \<open>
  Claim C9 as amended: the list of ignored directories is one list for the whole process.
  Every call of a method of a session leaves the old list as a prefix of the new one
  (nothing is removed or reordered), the handler of \<^verbatim>\<open>S\<close> puts the directory of the
  current record on it, and constructing a session leaves the process state, and so the
  list left by earlier sessions, as it is.
\<close>

theorem C9_ignored_directories_grow_and_persist:
  "prefix (directories_to_ignore w) (directories_to_ignore (snd (snd (call d m sm w)))) \<and>
   directory (current_file sm) \<in>
     set (directories_to_ignore (snd (snd (call (Suc d) Skip_directory sm w)))) \<and>
   snd (StateMachine_init fls w) = w"
  by (simp add: call_ignore_prefix skip_directory_adds StateMachine_init_def split: list.split)

subsection \<open>C10: one list of files for the whole process\<close>

text \<open>
  Claim C10: every \<^verbatim>\<open>File\<close> constructed anywhere in the process appends itself to the
  one class-level list \<^verbatim>\<open>File.files\<close>; \<^verbatim>\<open>files_by_size\<close> and \<^verbatim>\<open>files_by_age\<close> rank all
  \<^verbatim>\<open>File\<close> objects ever constructed in the process, not those of one scan; so a second
  catalog built in the same process includes the records of the first.

  Stated here: a construction that succeeds appends the new object at the end of
  \<^verbatim>\<open>File.files\<close>; \<^verbatim>\<open>files_by_size\<close> is the whole of \<^verbatim>\<open>File.files\<close> in non-decreasing
  order of size, and \<^verbatim>\<open>files_by_age\<close> the whole of it in non-increasing order of age,
  objects of equal key in the order of their construction; the loop of \<^verbatim>\<open>main\<close>, for any
  list of paths, leaves the old \<^verbatim>\<open>File.files\<close> as a prefix of the new one; and both
  rankings after a second run of the loop contain the rankings after the first.
\<close>

theorem C10_files_are_process_wide:
  "(File_init p n a w = (Inr f, w') \<longrightarrow> File_files w' = File_files w @ [f]) \<and>
   sorted_wrt (\<lambda>a b. size_in_bytes a \<le> size_in_bytes b) (files_by_size w) \<and>
   mset (files_by_size w) = mset (File_files w) \<and>
   filter (\<lambda>f. size_in_bytes f = k) (files_by_size w) =
     filter (\<lambda>f. size_in_bytes f = k) (File_files w) \<and>
   sorted_wrt (\<lambda>a b. age_in_days a \<ge> age_in_days b) (files_by_age w) \<and>
   mset (files_by_age w) = mset (File_files w) \<and>
   filter (\<lambda>f. age_in_days f = k) (files_by_age w) =
     filter (\<lambda>f. age_in_days f = k) (File_files w) \<and>
   prefix (File_files w) (File_files (snd (scan_loop ps1 w))) \<and>
   set (files_by_size (snd (scan_loop ps1 w))) \<subseteq>
     set (files_by_size (snd (scan_loop ps2 (snd (scan_loop ps1 w))))) \<and>
   set (files_by_age (snd (scan_loop ps1 w))) \<subseteq>
     set (files_by_age (snd (scan_loop ps2 (snd (scan_loop ps1 w)))))"
proof -
  have a: "File_init p n a w = (Inr f, w') \<longrightarrow> File_files w' = File_files w @ [f]"
    by (auto dest: File_init_appends)
  have s1: "set (files_by_size v) = set (File_files v)" for v
    using files_by_size_mset [of v] by (rule mset_eq_setD)
  have s2: "set (files_by_age v) = set (File_files v)" for v
    using files_by_age_mset [of v] by (rule mset_eq_setD)
  have p: "set (File_files v) \<subseteq> set (File_files (snd (scan_loop ps v)))" for ps v
    using scan_loop_prefix [of v ps] by (rule set_mono_prefix)
  show ?thesis
    using a files_by_size_sorted [of w] files_by_size_mset [of w] files_by_size_stable [of k w]
      files_by_age_sorted [of w] files_by_age_mset [of w] files_by_age_stable [of k w]
      scan_loop_prefix [of w ps1] p [of "snd (scan_loop ps1 w)" ps2]
    by (simp only: s1 s2 simp_thms)
qed

theorem C10_files_are_process_wide_witness:
  "File_init ''/x/a'' 5 1 ex_fresh_world = (Inr ex_a, ex_fresh_world\<lparr>File_files := [ex_a]\<rparr>) \<and>
   File_files (ex_fresh_world\<lparr>File_files := [ex_a]\<rparr>) = File_files ex_fresh_world @ [ex_a] \<and>
   File_files ex_ranked_world = [ex_f1, ex_f2, ex_f3] \<and>
   files_by_size ex_ranked_world = [ex_f2, ex_f3, ex_f1] \<and>
   files_by_age ex_ranked_world = [ex_f3, ex_f1, ex_f2] \<and>
   sorted_wrt (\<lambda>a b. size_in_bytes a \<le> size_in_bytes b) [ex_f2, ex_f3, ex_f1] \<and>
   sorted_wrt (\<lambda>a b. age_in_days a \<ge> age_in_days b) [ex_f3, ex_f1, ex_f2] \<and>
   files_by_size (snd (scan_loop [''/x/a'', ''/x/b''] ex_fresh_world)) = [ex_a, ex_b] \<and>
   files_by_size (snd (scan_loop [''/x/a'', ''/x/b'']
                         (snd (scan_loop [''/x/a'', ''/x/b''] ex_fresh_world)))) =
     [ex_a, ex_a\<lparr>oid := 2\<rparr>, ex_b, ex_b\<lparr>oid := 3\<rparr>]"
proof -
  have h: "File_init ''/x/a'' 5 1 ex_fresh_world = (Inr ex_a, ex_fresh_world\<lparr>File_files := [ex_a]\<rparr>)"
    by code_simp
  have r0: "File_files ex_ranked_world = [ex_f1, ex_f2, ex_f3]"
    by (simp add: ex_ranked_world_def)
  have r1: "files_by_size ex_ranked_world = [ex_f2, ex_f3, ex_f1]"
    by code_simp
  have r2: "files_by_age ex_ranked_world = [ex_f3, ex_f1, ex_f2]"
    by code_simp
  have c: "files_by_size (snd (scan_loop [''/x/a'', ''/x/b''] ex_fresh_world)) = [ex_a, ex_b]"
    by code_simp
  have d: "files_by_size (snd (scan_loop [''/x/a'', ''/x/b'']
                         (snd (scan_loop [''/x/a'', ''/x/b''] ex_fresh_world)))) =
     [ex_a, ex_a\<lparr>oid := 2\<rparr>, ex_b, ex_b\<lparr>oid := 3\<rparr>]"
    by code_simp
  note th = C10_files_are_process_wide
    [of "''/x/a''" 5 1 ex_fresh_world ex_a "ex_fresh_world\<lparr>File_files := [ex_a]\<rparr>"]
  from th [THEN conjunct1] h
  have a: "File_files (ex_fresh_world\<lparr>File_files := [ex_a]\<rparr>) = File_files ex_fresh_world @ [ex_a]"
    by (rule mp)
  note tr = C10_files_are_process_wide [where w = ex_ranked_world]
  have s1: "sorted_wrt (\<lambda>a b. size_in_bytes a \<le> size_in_bytes b) [ex_f2, ex_f3, ex_f1]"
    using tr [THEN conjunct2, THEN conjunct1] by (simp only: r1)
  have s2: "sorted_wrt (\<lambda>a b. age_in_days a \<ge> age_in_days b) [ex_f3, ex_f1, ex_f2]"
    using tr [THEN conjunct2, THEN conjunct2, THEN conjunct2, THEN conjunct2, THEN conjunct1]
    by (simp only: r2)
  from h a r0 r1 r2 s1 s2 c d show ?thesis by (simp only: simp_thms)
qed

end
